theory Spec2Isabelle
  imports
    Complex_Main
    "HOL-Library.Char_ord"
    "HOL-Library.List_Lexorder"
    "HOL-Library.Product_Lexorder"
begin

section \<open>Event-log coverage analysis: the three scripts of the repository\<close>

text \<open>
  The repository holds three stand-alone analyses of the same kind of event log:
  \<^item> the top-level script of \<^verbatim>\<open>RESULT.py\<close> (lines 1-216), written with plain lists, sets
    and dictionaries; below its definitions carry the source's names;
  \<^item> the pandas program in the second half of \<^verbatim>\<open>RESULT.py\<close> (lines 218-493), whose
    functions \<^verbatim>\<open>parse_eventlogreport\<close>, \<^verbatim>\<open>calc_high_hourly_R_based\<close>, ... are embedded under
    their own names, a data frame being the list of its rows;
  \<^item> \<^verbatim>\<open>output/sainaosi.py\<close>, which first splits the log into one file per hour and then
    reads the files back.

  Conventions of the embedding.
  \<^item> A Python \<^verbatim>\<open>float\<close> is a value of \<open>pyfloat\<close>: a finite number, an infinity or NaN.
    The finite values are written as rationals and the arithmetic \<^verbatim>\<open>n / N * 100.0\<close> is
    exact; no statement below depends on a rounding error.
  \<^item> Strings are byte lists; letters and digits are the ASCII ones. Identifiers and node
    names are tokens of the log and hold no white space, so that \<^verbatim>\<open>$\<close> in a regular
    expression matches at the end of the string only.
  \<^item> \<^verbatim>\<open>float(s)\<close> of a token is a parameter \<open>to_float\<close> of the parsers
    (\<open>None\<close> where Python raises \<^verbatim>\<open>ValueError\<close>).
  \<^item> A Python set is a HOL set; where the script sorts the elements of a set, the model
    sorts an enumeration of them without repetition.
\<close>

subsection \<open>Floats\<close>

datatype pyfloat = Fin rat | PInf | NInf | NaN

text \<open>Comparisons of a float with an integer, as Python evaluates them (NaN compares false).\<close>

fun float_gt :: "pyfloat \<Rightarrow> int \<Rightarrow> bool" where
  "float_gt (Fin r) k = (of_int k < r)"
| "float_gt PInf k = True"
| "float_gt NInf k = False"
| "float_gt NaN k = False"

fun float_le :: "pyfloat \<Rightarrow> int \<Rightarrow> bool" where
  "float_le (Fin r) k = (r \<le> of_int k)"
| "float_le PInf k = False"
| "float_le NInf k = True"
| "float_le NaN k = False"

fun float_ge :: "pyfloat \<Rightarrow> int \<Rightarrow> bool" where
  "float_ge (Fin r) k = (of_int k \<le> r)"
| "float_ge PInf k = True"
| "float_ge NInf k = False"
| "float_ge NaN k = False"

fun float_lt :: "pyfloat \<Rightarrow> int \<Rightarrow> bool" where
  "float_lt (Fin r) k = (r < of_int k)"
| "float_lt PInf k = False"
| "float_lt NInf k = True"
| "float_lt NaN k = False"

datatype py_error = KeyError | ValueError | IndexError

text \<open>\<^verbatim>\<open>round(x)\<close> of a finite float: to the nearest integer, a tie to the even one.\<close>

definition round_half_even :: "rat \<Rightarrow> int" where
  "round_half_even x =
     (let f = \<lfloor>x\<rfloor>; d = x - of_int f
      in if d < 1 / 2 then f else if 1 / 2 < d then f + 1 else if even f then f else f + 1)"

text \<open>\<^verbatim>\<open>round(x)\<close> raises on NaN (\<^verbatim>\<open>ValueError\<close>) and on an infinity (\<^verbatim>\<open>OverflowError\<close>, not
  reachable below: no rate is infinite).\<close>

fun py_round :: "pyfloat \<Rightarrow> py_error + int" where
  "py_round (Fin r) = Inr (round_half_even r)"
| "py_round NaN = Inl ValueError"
| "py_round PInf = Inl ValueError"
| "py_round NInf = Inl ValueError"

subsection \<open>Strings: case folding, prefixes, digits\<close>

definition lower_char :: "char \<Rightarrow> char" where
  "lower_char c =
     (let n = (of_char c :: nat) in if 65 \<le> n \<and> n \<le> 90 then char_of (n + 32) else c)"

definition lower :: "string \<Rightarrow> string" where
  "lower s = map lower_char s"

definition startswith :: "string \<Rightarrow> string \<Rightarrow> bool" where
  "startswith s p = (take (length p) s = p)"

definition isdigit :: "char \<Rightarrow> bool" where
  "isdigit c = (let n = (of_char c :: nat) in 48 \<le> n \<and> n \<le> 57)"

text \<open>\<^verbatim>\<open>int(num)\<close> of a run of decimal digits.\<close>

definition int_of_digits :: "string \<Rightarrow> int" where
  "int_of_digits ds = foldl (\<lambda>acc c. 10 * acc + (int (of_char c) - 48)) 0 ds"

subsection \<open>Classifiers of the script (\<^verbatim>\<open>RESULT.py\<close>, lines 14-39)\<close>

text \<open>An absent name (\<^verbatim>\<open>None\<close>) is \<open>None\<close>.\<close>

definition is_box :: "string option \<Rightarrow> bool" where
  "is_box name = (case name of None \<Rightarrow> False | Some s \<Rightarrow> startswith (lower s) ''box'')"

definition is_do :: "string option \<Rightarrow> bool" where
  "is_do name = (case name of None \<Rightarrow> False | Some s \<Rightarrow> startswith (lower s) ''do'')"

definition is_high_id :: "string option \<Rightarrow> bool" where
  "is_high_id mid = (case mid of None \<Rightarrow> False | Some s \<Rightarrow> startswith (lower s) ''m_h'')"

definition is_low_id :: "string option \<Rightarrow> bool" where
  "is_low_id mid = (case mid of None \<Rightarrow> False | Some s \<Rightarrow> startswith (lower s) ''m_l'')"

subsection \<open>Natural order of identifiers\<close>

text \<open>The maximal trailing run of digits: the loop of \<^verbatim>\<open>sort_key\<close> walking back from the end,
  and the match of \<^verbatim>\<open>(\d+)$\<close> in \<^verbatim>\<open>natural_key\<close>.\<close>

definition trailing_digits :: "string \<Rightarrow> string" where
  "trailing_digits s = rev (takeWhile isdigit (rev s))"

text \<open>\<^verbatim>\<open>sort_key\<close> inside \<^verbatim>\<open>natural_sort_ids\<close> (script, lines 42-55): a pair.\<close>

definition sort_key_ids :: "string \<Rightarrow> string \<times> int" where
  "sort_key_ids s =
     (let num = trailing_digits s
      in if num = [] then (s, -1)
         else (take (length s - length num) s, int_of_digits num))"

text \<open>\<^verbatim>\<open>lst.sort(key=sort_key)\<close> is a stable sort, as \<open>sort_key\<close> of the list library is.\<close>

definition natural_sort_ids :: "string list \<Rightarrow> string list" where
  "natural_sort_ids ids_list = sort_key sort_key_ids ids_list"

text \<open>\<^verbatim>\<open>natural_key\<close> (pandas program, lines 309-312): a triple ending in the identifier.\<close>

definition natural_key :: "string \<Rightarrow> string \<times> int \<times> string" where
  "natural_key mid =
     (let m = trailing_digits mid
      in (if m = [] then mid else take (length mid - length m) mid,
          if m = [] then -1 else int_of_digits m,
          mid))"

subsection \<open>Lines and tokens\<close>

text \<open>The white space of \<^verbatim>\<open>str.strip()\<close> and \<^verbatim>\<open>str.split()\<close>: blank, tab, line feed,
  vertical tab, form feed, carriage return and the four separators 28-31.\<close>

definition isspace :: "char \<Rightarrow> bool" where
  "isspace c = (let n = (of_char c :: nat) in n = 32 \<or> (9 \<le> n \<and> n \<le> 13) \<or> (28 \<le> n \<and> n \<le> 31))"

definition strip :: "string \<Rightarrow> string" where
  "strip s = rev (dropWhile isspace (rev (dropWhile isspace s)))"

fun split_acc :: "string \<Rightarrow> string \<Rightarrow> string list" where
  "split_acc cur [] = (if cur = [] then [] else [cur])"
| "split_acc cur (c # cs) =
     (if isspace c then (if cur = [] then split_acc [] cs else cur # split_acc [] cs)
      else split_acc (cur @ [c]) cs)"

definition split :: "string \<Rightarrow> string list" where
  "split s = split_acc [] s"

subsection \<open>The script: reading the log (\<^verbatim>\<open>RESULT.py\<close>, lines 62-89)\<close>

text \<open>An element of \<^verbatim>\<open>events\<close>: the dictionary with the keys
  \<^verbatim>\<open>time\<close>, \<^verbatim>\<open>type\<close> (\<^verbatim>\<open>'C'\<close>, \<^verbatim>\<open>'R'\<close> or \<^verbatim>\<open>'D'\<close>), \<^verbatim>\<open>src\<close>, \<^verbatim>\<open>dst\<close> (\<^verbatim>\<open>None\<close> on a C line) and \<^verbatim>\<open>id\<close>.\<close>

record event =
  e_time :: pyfloat
  e_type :: string
  e_src :: string
  e_dst :: "string option"
  e_id :: string

text \<open>One turn of the reading loop: the event appended for the line, or \<open>None\<close> when the
  loop reaches \<^verbatim>\<open>continue\<close> without appending. The bare \<^verbatim>\<open>except\<close> also catches the failure
  of \<^verbatim>\<open>parts[0]\<close>.\<close>

definition script_line :: "(string \<Rightarrow> pyfloat option) \<Rightarrow> string \<Rightarrow> event option" where
  "script_line to_float raw =
     (let line = strip raw in
      if line = [] then None
      else
        let parts = split line in
        case (case parts of [] \<Rightarrow> None | p # _ \<Rightarrow> to_float p) of
          None \<Rightarrow> None
        | Some t \<Rightarrow>
            let typ = (if 1 < length parts then Some (parts ! 1) else None) in
            if typ = Some ''C'' \<and> 4 \<le> length parts then
              Some \<lparr>e_time = t, e_type = ''C'', e_src = parts ! 2, e_dst = None, e_id = parts ! 3\<rparr>
            else if typ = Some ''DE'' \<and> 6 \<le> length parts then
              (let src = parts ! 2; dst = parts ! 3; mid = parts ! 4; st = parts ! 5 in
               if st = ''R'' then
                 Some \<lparr>e_time = t, e_type = ''R'', e_src = src, e_dst = Some dst, e_id = mid\<rparr>
               else if st = ''D'' then
                 Some \<lparr>e_time = t, e_type = ''D'', e_src = src, e_dst = Some dst, e_id = mid\<rparr>
               else None)
            else None)"

definition events_of_log :: "(string \<Rightarrow> pyfloat option) \<Rightarrow> string list \<Rightarrow> event list" where
  "events_of_log to_float lines = List.map_filter (script_line to_float) lines"

subsection \<open>The script: node universe and high-priority events (lines 3-8, 92-124)\<close>

record config =
  EXCLUDE_BOX :: bool
  EXCLUDE_DO :: bool
  BIN_SECONDS :: int
  TOTAL_HOURS :: nat

definition script_config :: config where
  "script_config = \<lparr>EXCLUDE_BOX = True, EXCLUDE_DO = True, BIN_SECONDS = 3600, TOTAL_HOURS = 12\<rparr>"

text \<open>\<^verbatim>\<open>nodes_all\<close> before the exclusions: every \<^verbatim>\<open>src\<close> and every \<^verbatim>\<open>dst\<close> that is not \<^verbatim>\<open>None\<close>.\<close>

definition nodes_seen :: "event list \<Rightarrow> string list" where
  "nodes_seen events =
     concat (map (\<lambda>e. e_src e # (case e_dst e of None \<Rightarrow> [] | Some d \<Rightarrow> [d])) events)"

definition filtered_nodes :: "config \<Rightarrow> event list \<Rightarrow> string set" where
  "filtered_nodes cfg events =
     set (filter (\<lambda>n. \<not> (EXCLUDE_BOX cfg \<and> is_box (Some n)) \<and> \<not> (EXCLUDE_DO cfg \<and> is_do (Some n)))
            (nodes_seen events))"

definition N_nodes :: "config \<Rightarrow> event list \<Rightarrow> nat" where
  "N_nodes cfg events = card (filtered_nodes cfg events)"

definition rd_events_high :: "config \<Rightarrow> event list \<Rightarrow> event list" where
  "rd_events_high cfg events =
     filter (\<lambda>e. (e_type e = ''R'' \<or> e_type e = ''D'') \<and> is_high_id (Some (e_id e))
                 \<and> \<not> (EXCLUDE_BOX cfg \<and> is_box (e_dst e))
                 \<and> \<not> (EXCLUDE_DO cfg \<and> is_do (e_dst e)))
       events"

definition mh_ids :: "config \<Rightarrow> event list \<Rightarrow> string list" where
  "mh_ids cfg events = natural_sort_ids (remdups (map e_id (rd_events_high cfg events)))"

subsection \<open>The script: the hourly loop (lines 130-169)\<close>

text \<open>A line of the hourly table, before it is turned into text. The pandas program appends
  records of the same shape.\<close>

record high_row =
  hr_Id :: string
  hour_index :: nat
  hr_N :: nat
  n_hour :: nat
  rate_percent_hour :: int
  cumulative_rate_percent :: int

text \<open>The events of \<^verbatim>\<open>rd_events_high\<close> that pass the two tests of lines 141-142 in hour \<open>h\<close>.\<close>

definition hour_events :: "int \<Rightarrow> event list \<Rightarrow> string \<Rightarrow> nat \<Rightarrow> event list" where
  "hour_events W rd mid h =
     filter (\<lambda>e. e_id e = mid
                 \<and> float_gt (e_time e) ((int h - 1) * W) \<and> float_le (e_time e) (int h * W)) rd"

definition hour_receivers :: "int \<Rightarrow> event list \<Rightarrow> string \<Rightarrow> nat \<Rightarrow> string option set" where
  "hour_receivers W rd mid h = set (map e_dst (hour_events W rd mid h))"

definition first_time_nodes ::
  "int \<Rightarrow> event list \<Rightarrow> string \<Rightarrow> nat \<Rightarrow> string option set \<Rightarrow> string option set" where
  "first_time_nodes W rd mid h already_seen_nodes = hour_receivers W rd mid h - already_seen_nodes"

text \<open>The rates of the script are finite: \<^verbatim>\<open>(n / N) * 100.0\<close> under the guard \<^verbatim>\<open>N > 0\<close>,
  \<^verbatim>\<open>0.0\<close> otherwise.\<close>

definition script_rate :: "nat \<Rightarrow> nat \<Rightarrow> rat" where
  "script_rate n N = (if 0 < N then (of_nat n / of_nat N) * 100 else 0)"

text \<open>The body of the \<^verbatim>\<open>while\<close> loop: the line written and the updated \<^verbatim>\<open>already_seen_nodes\<close>.\<close>

definition hour_body ::
  "nat \<Rightarrow> int \<Rightarrow> event list \<Rightarrow> string \<Rightarrow> nat \<Rightarrow> string option set
     \<Rightarrow> high_row \<times> string option set" where
  "hour_body N W rd mid h already_seen_nodes =
     (let new = first_time_nodes W rd mid h already_seen_nodes;
          rate_hour = script_rate (card new) N;
          seen = already_seen_nodes \<union> new;
          cum_rate = script_rate (card seen) N
      in (\<lparr>hr_Id = mid, hour_index = h, hr_N = N, n_hour = card new,
           rate_percent_hour = round_half_even rate_hour,
           cumulative_rate_percent = round_half_even cum_rate\<rparr>, seen))"

function hours_while ::
  "nat \<Rightarrow> int \<Rightarrow> nat \<Rightarrow> event list \<Rightarrow> string \<Rightarrow> nat \<Rightarrow> string option set \<Rightarrow> high_row list" where
  "hours_while N W H rd mid h already_seen_nodes =
     (if h \<le> H then
        fst (hour_body N W rd mid h already_seen_nodes)
          # hours_while N W H rd mid (h + 1) (snd (hour_body N W rd mid h already_seen_nodes))
      else [])"
  by pat_completeness auto
termination
  by (relation "measure (\<lambda>(N, W, H, rd, mid, h, s). Suc H - h)") auto

declare hours_while.simps [simp del]

text \<open>\<^verbatim>\<open>already_seen_nodes\<close> after the first \<open>k\<close> turns of the loop for one identifier.\<close>

primrec seen_after :: "nat \<Rightarrow> int \<Rightarrow> event list \<Rightarrow> string \<Rightarrow> nat \<Rightarrow> string option set" where
  "seen_after N W rd mid 0 = {}"
| "seen_after N W rd mid (Suc k) = snd (hour_body N W rd mid (Suc k) (seen_after N W rd mid k))"

text \<open>The lines of \<^verbatim>\<open>MH_hourly_firsttime_81.csv\<close> below the header.\<close>

definition MH_hourly_firsttime :: "config \<Rightarrow> event list \<Rightarrow> high_row list" where
  "MH_hourly_firsttime cfg events =
     concat (map (\<lambda>mid. hours_while (N_nodes cfg events) (BIN_SECONDS cfg) (TOTAL_HOURS cfg)
                           (rd_events_high cfg events) mid 1 {})
               (mh_ids cfg events))"

subsection \<open>The script: low-priority messages (lines 173-214)\<close>

definition created_low :: "event list \<Rightarrow> event list" where
  "created_low events = filter (\<lambda>e. e_type e = ''C'' \<and> is_low_id (Some (e_id e))) events"

definition L_per_id :: "event list \<Rightarrow> string \<Rightarrow> nat option" where
  "L_per_id events mid =
     (let n = length (filter (\<lambda>e. e_id e = mid) (created_low events))
      in if n = 0 then None else Some n)"

definition L_total :: "event list \<Rightarrow> nat" where
  "L_total events = length (created_low events)"

definition delivered_once_ids :: "event list \<Rightarrow> string set" where
  "delivered_once_ids events =
     set (map e_id (filter (\<lambda>e. e_type e = ''D'' \<and> is_low_id (Some (e_id e))) events))"

definition P_total :: "event list \<Rightarrow> nat" where
  "P_total events = card (delivered_once_ids events)"

text \<open>\<^verbatim>\<open>round(x, 1)\<close>, on the exact value.\<close>

definition round1 :: "rat \<Rightarrow> rat" where
  "round1 x = of_int (round_half_even (x * 10)) / 10"

definition rate_total :: "event list \<Rightarrow> rat" where
  "rate_total events =
     (if 0 < L_total events then (of_nat (P_total events) / of_nat (L_total events)) * 100 else 0)"

record low_summary =
  L_created_messages :: nat
  P_first_delivered_messages :: nat
  arrival_rate_percent :: rat

definition ML_arrival_rate :: "event list \<Rightarrow> low_summary" where
  "ML_arrival_rate events =
     \<lparr>L_created_messages = L_total events, P_first_delivered_messages = P_total events,
      arrival_rate_percent = round1 (rate_total events)\<rparr>"

text \<open>The keys of the dictionary \<^verbatim>\<open>L_per_id\<close> in order of insertion, then
  \<^verbatim>\<open>natural_sorted_keys\<close> and one line per key.\<close>

definition L_keys :: "event list \<Rightarrow> string list" where
  "L_keys events = rev (remdups (rev (map e_id (created_low events))))"

definition ML_arrival_rate_by_id :: "event list \<Rightarrow> (string \<times> nat \<times> nat \<times> rat) list" where
  "ML_arrival_rate_by_id events =
     map (\<lambda>mid.
            let L_i = (case L_per_id events mid of None \<Rightarrow> 0 | Some n \<Rightarrow> n);
                P_i = (if mid \<in> delivered_once_ids events then 1 else 0);
                rate_i = (if 0 < L_i then (of_nat P_i / of_nat L_i) * 100 else 0)
            in (mid, L_i, P_i, round1 rate_i))
       (natural_sort_ids (L_keys events))"

text \<open>Everything the script writes for one log.\<close>

record script_output =
  out_MH_hourly :: "high_row list"
  out_ML_summary :: low_summary
  out_ML_by_id :: "(string \<times> nat \<times> nat \<times> rat) list"

definition script :: "config \<Rightarrow> event list \<Rightarrow> script_output" where
  "script cfg events =
     \<lparr>out_MH_hourly = MH_hourly_firsttime cfg events,
      out_ML_summary = ML_arrival_rate events,
      out_ML_by_id = ML_arrival_rate_by_id events\<rparr>"

subsection \<open>The pandas program: parsing (\<^verbatim>\<open>RESULT.py\<close>, lines 264-296)\<close>

text \<open>A row of the data frame: the dictionary appended to \<^verbatim>\<open>rows\<close>. A data frame is the list
  of its rows; the frame built from no row has no column.\<close>

record row =
  row_Time :: pyfloat
  row_Type :: string
  row_Src :: string
  row_Dst :: "string option"
  row_Id :: "string option"
  row_Status :: "string option"

definition pd_line :: "(string \<Rightarrow> pyfloat option) \<Rightarrow> string \<Rightarrow> row option" where
  "pd_line to_float raw =
     (let line = strip raw in
      if line = [] then None
      else
        let parts = split line in
        case (case parts of [] \<Rightarrow> None | p # _ \<Rightarrow> to_float p) of
          None \<Rightarrow> None
        | Some t \<Rightarrow>
            let etype = (if 1 < length parts then Some (parts ! 1) else None) in
            if etype = Some ''CONN'' \<and> 5 \<le> length parts then
              Some \<lparr>row_Time = t, row_Type = ''CONN'', row_Src = parts ! 2,
                    row_Dst = Some (parts ! 3), row_Id = None, row_Status = Some (parts ! 4)\<rparr>
            else if etype = Some ''C'' \<and> 4 \<le> length parts then
              Some \<lparr>row_Time = t, row_Type = ''C'', row_Src = parts ! 2,
                    row_Dst = None, row_Id = Some (parts ! 3), row_Status = None\<rparr>
            else if etype = Some ''S'' \<and> 5 \<le> length parts then
              Some \<lparr>row_Time = t, row_Type = ''S'', row_Src = parts ! 2,
                    row_Dst = Some (parts ! 3), row_Id = Some (parts ! 4), row_Status = None\<rparr>
            else if etype = Some ''DE'' \<and> 6 \<le> length parts then
              Some \<lparr>row_Time = t, row_Type = ''DE'', row_Src = parts ! 2,
                    row_Dst = Some (parts ! 3), row_Id = Some (parts ! 4),
                    row_Status = Some (parts ! 5)\<rparr>
            else None)"

definition parse_eventlogreport :: "(string \<Rightarrow> pyfloat option) \<Rightarrow> string list \<Rightarrow> row list" where
  "parse_eventlogreport to_float lines = List.map_filter (pd_line to_float) lines"

subsection \<open>The pandas program: patterns and node universe (lines 241-260, 299-318)\<close>

text \<open>\<^verbatim>\<open>^box\d+$\<close>, \<^verbatim>\<open>^M_H\<close>, \<^verbatim>\<open>^M_L\<close> and \<^verbatim>\<open>^p\d+$\<close>, \<^verbatim>\<open>^q\d+$\<close>, \<^verbatim>\<open>^r\d+$\<close>, all ignoring case and
  matched at the start of the string.\<close>

definition BOX_RE :: "string \<Rightarrow> bool" where
  "BOX_RE s = (startswith (lower s) ''box'' \<and> drop 3 s \<noteq> [] \<and> list_all isdigit (drop 3 s))"

definition ID_HIGH_RE :: "string \<Rightarrow> bool" where
  "ID_HIGH_RE s = startswith (lower s) ''m_h''"

definition ID_LOW_RE :: "string \<Rightarrow> bool" where
  "ID_LOW_RE s = startswith (lower s) ''m_l''"

definition cluster_re :: "string \<Rightarrow> string \<Rightarrow> bool" where
  "cluster_re c s = (startswith (lower s) c \<and> drop 1 s \<noteq> [] \<and> list_all isdigit (drop 1 s))"

definition CLUSTER_REGEX :: "(string \<times> (string \<Rightarrow> bool)) list" where
  "CLUSTER_REGEX = [(''p'', cluster_re ''p''), (''q'', cluster_re ''q''), (''r'', cluster_re ''r'')]"

text \<open>\<^verbatim>\<open>.astype(str)\<close> on a cell: \<^verbatim>\<open>None\<close> becomes the text \<^verbatim>\<open>None\<close>.\<close>

definition astype_str :: "string option \<Rightarrow> string" where
  "astype_str v = (case v of None \<Rightarrow> ''None'' | Some s \<Rightarrow> s)"

text \<open>\<^verbatim>\<open>.dropna()\<close> on a column.\<close>

definition dropna :: "string option list \<Rightarrow> string list" where
  "dropna col = List.map_filter (\<lambda>v. v) col"

text \<open>\<^verbatim>\<open>.unique()\<close>: the values in order of first appearance.\<close>

definition unique :: "'a list \<Rightarrow> 'a list" where
  "unique xs = rev (remdups (rev xs))"

record pd_config =
  EXCLUDE_BOX_IN_DENOM :: bool
  pd_BIN_SECONDS :: int
  pd_TOTAL_HOURS :: nat

definition pandas_config :: pd_config where
  "pandas_config = \<lparr>EXCLUDE_BOX_IN_DENOM = True, pd_BIN_SECONDS = 3600, pd_TOTAL_HOURS = 12\<rparr>"

definition compute_denominator_nodes :: "row list \<Rightarrow> bool \<Rightarrow> string set" where
  "compute_denominator_nodes df exclude_box =
     (let nodes = (set (map row_Src df) \<union> set (dropna (map row_Dst df))) - {[]}
      in if exclude_box then Set.filter (\<lambda>n. \<not> BOX_RE n) nodes else nodes)"

definition hourly_bins :: "nat \<Rightarrow> int \<Rightarrow> (nat \<times> int \<times> int) list" where
  "hourly_bins total_hours bin_sec =
     map (\<lambda>h. (h, (int h - 1) * bin_sec, int h * bin_sec)) [1..<Suc total_hours]"

subsection \<open>The pandas program: \<^verbatim>\<open>calc_high_hourly_R_based\<close> (lines 321-369)\<close>

definition high_R :: "pd_config \<Rightarrow> row list \<Rightarrow> row list" where
  "high_R cfg df =
     (let sel = filter (\<lambda>r. row_Type r = ''DE''
                            \<and> row_Id r \<noteq> None \<and> ID_HIGH_RE (astype_str (row_Id r))
                            \<and> row_Status r = Some ''R'') df
      in if EXCLUDE_BOX_IN_DENOM cfg
         then filter (\<lambda>r. \<not> BOX_RE (astype_str (row_Dst r))) sel else sel)"

definition pd_mh_ids :: "pd_config \<Rightarrow> row list \<Rightarrow> string list" where
  "pd_mh_ids cfg df = sort_key natural_key (unique (dropna (map row_Id (high_R cfg df))))"

definition h_slice :: "row list \<Rightarrow> int \<Rightarrow> int \<Rightarrow> row list" where
  "h_slice sub start stop =
     filter (\<lambda>r. float_gt (row_Time r) start \<and> float_le (row_Time r) stop) sub"

definition slice_dsts :: "row list \<Rightarrow> int \<Rightarrow> int \<Rightarrow> string set" where
  "slice_dsts sub start stop = set (map (\<lambda>r. astype_str (row_Dst r)) (h_slice sub start stop))"

text \<open>\<^verbatim>\<open>(n / N * 100.0) if N > 0 else float("nan")\<close>.\<close>

definition pd_rate :: "nat \<Rightarrow> nat \<Rightarrow> pyfloat" where
  "pd_rate n N = (if 0 < N then Fin (of_nat n / of_nat N * 100) else NaN)"

text \<open>The loop over the bins for one identifier; \<^verbatim>\<open>round\<close> may raise, which ends the call.\<close>

fun R_based_bins ::
  "nat \<Rightarrow> row list \<Rightarrow> string \<Rightarrow> (nat \<times> int \<times> int) list \<Rightarrow> string set \<Rightarrow> py_error + high_row list" where
  "R_based_bins N sub mid [] seen = Inr []"
| "R_based_bins N sub mid ((h, start, stop) # bins) seen =
     (let n = card (slice_dsts sub start stop);
          rate_hour = pd_rate n N;
          seen' = seen \<union> slice_dsts sub start stop;
          cum_rate = pd_rate (card seen') N
      in case py_round rate_hour of
           Inl e \<Rightarrow> Inl e
         | Inr rh \<Rightarrow>
            (case py_round cum_rate of
               Inl e \<Rightarrow> Inl e
             | Inr rc \<Rightarrow>
                (case R_based_bins N sub mid bins seen' of
                   Inl e \<Rightarrow> Inl e
                 | Inr rows \<Rightarrow>
                     Inr (\<lparr>hr_Id = mid, hour_index = h, hr_N = N, n_hour = n,
                           rate_percent_hour = rh, cumulative_rate_percent = rc\<rparr> # rows))))"

text \<open>The set \<^verbatim>\<open>seen\<close> after the bins of a list have been processed.\<close>

fun seen_bins :: "row list \<Rightarrow> (nat \<times> int \<times> int) list \<Rightarrow> string set \<Rightarrow> string set" where
  "seen_bins sub [] seen = seen"
| "seen_bins sub ((h, start, stop) # bins) seen =
     seen_bins sub bins (seen \<union> slice_dsts sub start stop)"

fun R_based_ids ::
  "nat \<Rightarrow> row list \<Rightarrow> (nat \<times> int \<times> int) list \<Rightarrow> string list \<Rightarrow> py_error + high_row list" where
  "R_based_ids N hr bins [] = Inr []"
| "R_based_ids N hr bins (mid # mids) =
     (case R_based_bins N (filter (\<lambda>r. row_Id r = Some mid) hr) mid bins {} of
        Inl e \<Rightarrow> Inl e
      | Inr rows \<Rightarrow>
         (case R_based_ids N hr bins mids of
            Inl e \<Rightarrow> Inl e
          | Inr rest \<Rightarrow> Inr (rows @ rest)))"

text \<open>The records of \<^verbatim>\<open>long_df\<close>. Indexing the frame without columns raises \<^verbatim>\<open>KeyError\<close>.\<close>

definition calc_high_hourly_R_based ::
  "pd_config \<Rightarrow> row list \<Rightarrow> string set \<Rightarrow> py_error + high_row list" where
  "calc_high_hourly_R_based cfg df nodes_all =
     (if df = [] then Inl KeyError
      else R_based_ids (card nodes_all) (high_R cfg df)
             (hourly_bins (pd_TOTAL_HOURS cfg) (pd_BIN_SECONDS cfg)) (pd_mh_ids cfg df))"

subsection \<open>The pandas program: \<^verbatim>\<open>calc_high_hourly_R_based_by_cluster\<close> (lines 372-426)\<close>

record cluster_row =
  cr_Id :: string
  cr_hour_index :: nat
  Cluster :: string
  N_cluster :: nat
  n_receivers_hour :: nat
  cr_rate_percent_hour :: pyfloat
  cr_cumulative_rate_percent :: pyfloat

fun cluster_bins ::
  "nat \<Rightarrow> string \<Rightarrow> row list \<Rightarrow> string \<Rightarrow> (nat \<times> int \<times> int) list \<Rightarrow> string set \<Rightarrow> cluster_row list" where
  "cluster_bins N_c cname sub mid [] seen = []"
| "cluster_bins N_c cname sub mid ((h, start, stop) # bins) seen =
     (let n = card (slice_dsts sub start stop);
          rate_hour = pd_rate n N_c;
          seen' = seen \<union> slice_dsts sub start stop;
          cum_rate = pd_rate (card seen') N_c
      in \<lparr>cr_Id = mid, cr_hour_index = h, Cluster = cname, N_cluster = N_c,
          n_receivers_hour = n, cr_rate_percent_hour = rate_hour,
          cr_cumulative_rate_percent = cum_rate\<rparr>
         # cluster_bins N_c cname sub mid bins seen')"

definition cluster_records ::
  "pd_config \<Rightarrow> row list \<Rightarrow> string set \<Rightarrow> string \<times> (string \<Rightarrow> bool) \<Rightarrow> cluster_row list" where
  "cluster_records cfg df nodes_all c =
     (let cname = fst c;
          cnodes = Set.filter (snd c) nodes_all;
          N_c = card cnodes;
          sub_cluster = filter (\<lambda>r. astype_str (row_Dst r) \<in> cnodes) (high_R cfg df)
      in concat (map (\<lambda>mid. cluster_bins N_c cname
                               (filter (\<lambda>r. row_Id r = Some mid) sub_cluster) mid
                               (hourly_bins (pd_TOTAL_HOURS cfg) (pd_BIN_SECONDS cfg)) {})
                   (pd_mh_ids cfg df)))"

definition calc_high_hourly_R_based_by_cluster ::
  "pd_config \<Rightarrow> row list \<Rightarrow> string set \<Rightarrow> py_error + cluster_row list" where
  "calc_high_hourly_R_based_by_cluster cfg df nodes_all =
     (if df = [] then Inl KeyError
      else Inr (concat (map (cluster_records cfg df nodes_all) CLUSTER_REGEX)))"

subsection \<open>The pandas program: \<^verbatim>\<open>calc_low_arrival_rate_first_delivery\<close> (lines 429-451)\<close>

record pd_summary =
  pd_L_created_messages :: nat
  pd_P_first_delivered_messages :: nat
  pd_arrival_rate_percent :: pyfloat

definition low_rows :: "row list \<Rightarrow> row list" where
  "low_rows df = filter (\<lambda>r. row_Id r \<noteq> None \<and> ID_LOW_RE (astype_str (row_Id r))) df"

definition delivered_ids :: "row list \<Rightarrow> string set" where
  "delivered_ids df =
     set (unique (dropna (map row_Id
       (filter (\<lambda>r. row_Type r = ''DE'' \<and> row_Status r = Some ''D'') (low_rows df)))))"

text \<open>The one row of \<^verbatim>\<open>summary\<close>; the table by identifier that the function builds afterwards
  is not modelled.\<close>

definition calc_low_arrival_rate_first_delivery :: "row list \<Rightarrow> py_error + pd_summary" where
  "calc_low_arrival_rate_first_delivery df =
     (if df = [] then Inl KeyError
      else
        let created = filter (\<lambda>r. row_Type r = ''C'') (low_rows df);
            L_total = length created;
            P_total = card (delivered_ids df)
        in Inr \<lparr>pd_L_created_messages = L_total, pd_P_first_delivered_messages = P_total,
                pd_arrival_rate_percent =
                  (if 0 < L_total then Fin (of_nat P_total / of_nat L_total * 100) else NaN)\<rparr>)"

subsection \<open>\<^verbatim>\<open>output/sainaosi.py\<close>\<close>

text \<open>\<^verbatim>\<open>time_range\<close> (lines 17-20): the pairs \<^verbatim>\<open>(i, i + 3600)\<close> for \<^verbatim>\<open>i\<close> in
  \<^verbatim>\<open>range(0, 43200, 3600)\<close>.\<close>

definition time_range :: "(int \<times> int) list" where
  "time_range = map (\<lambda>k. (int k * 3600, int k * 3600 + 3600)) [0..<12]"

text \<open>The list comprehension of line 35 over \<^verbatim>\<open>data\<close>, a list of token lists, for one pair
  of \<^verbatim>\<open>time_ranges\<close>.\<close>

fun grouped_data ::
  "(string \<Rightarrow> pyfloat option) \<Rightarrow> int \<times> int \<Rightarrow> string list list \<Rightarrow> py_error + string list list" where
  "grouped_data to_float (start_time, end_time) [] = Inr []"
| "grouped_data to_float (start_time, end_time) (entry # data) =
     (case entry of
        [] \<Rightarrow> Inl IndexError
      | p # _ \<Rightarrow>
         (case to_float p of
            None \<Rightarrow> Inl ValueError
          | Some t \<Rightarrow>
             (case grouped_data to_float (start_time, end_time) data of
                Inl e \<Rightarrow> Inl e
              | Inr g \<Rightarrow>
                  Inr (if float_ge t start_time \<and> float_lt t end_time then entry # g else g))))"

text \<open>A row of one of the hourly files as \<^verbatim>\<open>pd.read_csv\<close> returns it; the cells are taken as
  the texts that were written.\<close>

record csv_row =
  csv_Time :: string
  csv_Type :: string
  csv_Host :: string
  csv_Tohost :: string
  csv_Id :: string
  csv_Status :: string

text \<open>\<^verbatim>\<open>pd.concat([data['Host'], data['Tohost']]).drop_duplicates().nunique()\<close> (line 61).\<close>

definition total_nodes_of :: "csv_row list \<Rightarrow> nat" where
  "total_nodes_of data = card (set (map csv_Host data @ map csv_Tohost data))"

text \<open>The loop of lines 65-68: the counter and the updated \<^verbatim>\<open>seen_tohosts\<close>.\<close>

fun received_high :: "string list \<Rightarrow> string set \<Rightarrow> nat \<Rightarrow> nat \<times> string set" where
  "received_high [] seen_tohosts mh_received_nodes = (mh_received_nodes, seen_tohosts)"
| "received_high (tohost # rest) seen_tohosts mh_received_nodes =
     (if tohost \<notin> seen_tohosts
      then received_high rest (insert tohost seen_tohosts) (mh_received_nodes + 1)
      else received_high rest seen_tohosts mh_received_nodes)"

record high_result =
  res_file :: string
  target_id :: string
  total_nodes :: nat
  mh_received_nodes :: nat
  High :: rat
  cumulative_high :: rat

text \<open>The loop over the files for one \<^verbatim>\<open>target_id\<close> (lines 58-80); a file is its path and the
  frame read from it.\<close>

fun high_files ::
  "string \<Rightarrow> (string \<times> csv_row list) list \<Rightarrow> string set \<Rightarrow> rat \<Rightarrow> high_result list" where
  "high_files tid [] seen_tohosts cumul = []"
| "high_files tid ((file_path, data) # files) seen_tohosts cumul =
     (let tn = total_nodes_of data;
          step = received_high
                   (unique (map csv_Tohost
                      (filter (\<lambda>r. csv_Id r = tid \<and> csv_Status r = ''R'') data)))
                   seen_tohosts 0;
          hi = (if 0 < tn then (of_nat (fst step) / of_nat tn) * 100 else 0);
          cumul' = cumul + hi
      in \<lparr>res_file = file_path, target_id = tid, total_nodes = tn,
          mh_received_nodes = fst step, High = hi, cumulative_high = cumul'\<rparr>
         # high_files tid files (snd step) cumul')"

text \<open>\<^verbatim>\<open>str(n)\<close> of a natural number.\<close>

fun str_nat :: "nat \<Rightarrow> string" where
  "str_nat n =
     (if n < 10 then [char_of (48 + n)] else str_nat (n div 10) @ [char_of (48 + n mod 10)])"

text \<open>\<^verbatim>\<open>calculate_high\<close> (lines 46-86): \<^verbatim>\<open>range(1, max_id + 1, step)\<close> raises for the step 0.\<close>

definition calculate_high ::
  "(string \<times> csv_row list) list \<Rightarrow> string \<Rightarrow> nat \<Rightarrow> nat \<Rightarrow> py_error + high_result list" where
  "calculate_high file_list id_prefix step max_id =
     (if step = 0 then Inl ValueError
      else Inr (concat (map (\<lambda>id_index. high_files (id_prefix @ str_nat id_index) file_list {} 0)
                          (filter (\<lambda>i. (i - 1) mod step = 0) [1..<Suc max_id]))))"

text \<open>\<^verbatim>\<open>calculate_low\<close> (lines 90-119).\<close>

fun received_low :: "string list \<Rightarrow> string set \<Rightarrow> nat \<Rightarrow> nat \<times> string set" where
  "received_low [] seen_tohosts ml_received = (ml_received, seen_tohosts)"
| "received_low (tohost # rest) seen_tohosts ml_received =
     (if tohost \<notin> seen_tohosts
      then received_low rest (insert tohost seen_tohosts) (ml_received + 2)
      else received_low rest seen_tohosts ml_received)"

record low_result =
  low_File :: string
  M_L_Created :: nat
  M_L_Received :: nat
  Low :: rat

fun low_files :: "(string \<times> csv_row list) list \<Rightarrow> string set \<Rightarrow> low_result list" where
  "low_files [] seen_tohosts = []"
| "low_files ((file_path, data) # files) seen_tohosts =
     (let ml_data = filter (\<lambda>r. startswith (csv_Id r) ''M_L'') data;
          ml_created = length ml_data;
          step = received_low (map csv_Tohost (filter (\<lambda>r. csv_Status r = ''D'') ml_data))
                   seen_tohosts 0;
          lo = (if 0 < ml_created then (of_nat (fst step) / of_nat ml_created) * 100 else 0)
      in \<lparr>low_File = file_path, M_L_Created = ml_created, M_L_Received = fst step, Low = lo\<rparr>
         # low_files files (snd step))"

definition calculate_low :: "(string \<times> csv_row list) list \<Rightarrow> low_result list" where
  "calculate_low file_list = low_files file_list {}"

subsection \<open>A sample of \<^verbatim>\<open>float\<close>\<close>

text \<open>\<^verbatim>\<open>float(s)\<close> on the tokens that are runs of decimal digits; the concrete logs below
  hold no other first token that Python would parse. The parsers take \<open>to_float\<close> as a
  parameter, and the general statements hold for every choice of it.\<close>

definition float_of_decimal :: "string \<Rightarrow> pyfloat option" where
  "float_of_decimal s =
     (if s \<noteq> [] \<and> list_all isdigit s then Some (Fin (of_int (int_of_digits s))) else None)"

section \<open>Properties\<close>

subsection \<open>Natural order\<close>

lemma split_digits: "rev (dropWhile isdigit (rev s)) @ trailing_digits s = s"
proof -
  have "rev (takeWhile isdigit (rev s) @ dropWhile isdigit (rev s)) = s"
    by (simp only: takeWhile_dropWhile_id rev_rev_ident)
  then show ?thesis
    by (simp only: rev_append trailing_digits_def)
qed

lemma head_eq_rev_dropWhile:
  "take (length s - length (trailing_digits s)) s = rev (dropWhile isdigit (rev s))"
proof -
  let ?h = "rev (dropWhile isdigit (rev s))"
  have "length s = length ?h + length (trailing_digits s)"
    using split_digits [of s] by (metis length_append)
  then have "take (length s - length (trailing_digits s)) (?h @ trailing_digits s) = ?h"
    by simp
  then show ?thesis by (simp only: split_digits)
qed

lemma head_append_digits:
  "take (length s - length (trailing_digits s)) s @ trailing_digits s = s"
  by (simp only: head_eq_rev_dropWhile split_digits)

lemma trailing_digits_isdigit: "c \<in> set (trailing_digits s) \<Longrightarrow> isdigit c"
  by (auto simp: trailing_digits_def dest: set_takeWhileD)

lemma head_ends_nondigit:
  assumes "take (length s - length (trailing_digits s)) s \<noteq> []"
  shows "\<not> isdigit (last (take (length s - length (trailing_digits s)) s))"
proof -
  let ?d = "dropWhile isdigit (rev s)"
  from assms have ne: "?d \<noteq> []" by (simp add: head_eq_rev_dropWhile)
  then have "\<not> isdigit (hd ?d)" by (rule hd_dropWhile)
  moreover have "last (rev ?d) = hd ?d" using ne by (simp add: last_rev)
  ultimately show ?thesis by (simp add: head_eq_rev_dropWhile)
qed

lemma int_of_digits_foldl_nonneg:
  "0 \<le> acc \<Longrightarrow> \<forall>c\<in>set ds. isdigit c \<Longrightarrow>
   0 \<le> foldl (\<lambda>acc c. 10 * acc + (int (of_char c) - 48)) acc ds"
proof (induction ds arbitrary: acc)
  case Nil
  then show ?case by simp
next
  case (Cons c ds)
  from Cons.prems have "48 \<le> (of_char c :: nat)" by (simp add: isdigit_def Let_def)
  with Cons.prems have "0 \<le> 10 * acc + (int (of_char c) - 48)" by simp
  with Cons show ?case by simp
qed

lemma int_of_digits_nonneg: "0 \<le> int_of_digits (trailing_digits s)"
  unfolding int_of_digits_def
  by (rule int_of_digits_foldl_nonneg) (simp_all add: trailing_digits_isdigit)

text \<open>
  Claim C9, as amended. \<^verbatim>\<open>natural_key\<close> of the pandas program is the triple (head, number,
  identifier): the head followed by the trailing digits is the identifier, the trailing
  digits are digits and the head does not end in one (the run is maximal), the number is
  the value of the run, or \<open>-1\<close> when there is none, and a value is never negative. The key
  \<^verbatim>\<open>sort_key\<close> of the script is the pair of the first two components only, without the
  identifier as a tie-break. Both orders leave \<^verbatim>\<open>["m1", "m2", "m10"]\<close> as it is.
\<close>

theorem natural_key_triple:
  "snd (snd (natural_key mid)) = mid
   \<and> fst (natural_key mid) @ trailing_digits mid = mid
   \<and> (\<forall>c \<in> set (trailing_digits mid). isdigit c)
   \<and> (fst (natural_key mid) = [] \<or> \<not> isdigit (last (fst (natural_key mid))))
   \<and> fst (snd (natural_key mid)) =
        (if trailing_digits mid = [] then -1 else int_of_digits (trailing_digits mid))
   \<and> 0 \<le> int_of_digits (trailing_digits mid)
   \<and> sort_key_ids mid = (fst (natural_key mid), fst (snd (natural_key mid)))
   \<and> sort_key natural_key [''m1'', ''m2'', ''m10''] = [''m1'', ''m2'', ''m10'']
   \<and> natural_sort_ids [''m1'', ''m2'', ''m10''] = [''m1'', ''m2'', ''m10'']"
proof -
  let ?h = "take (length mid - length (trailing_digits mid)) mid"
  have k: "fst (natural_key mid) = ?h"
    by (simp add: natural_key_def Let_def)
  have a: "snd (snd (natural_key mid)) = mid"
    by (simp add: natural_key_def Let_def)
  have b: "fst (natural_key mid) @ trailing_digits mid = mid"
    unfolding k by (rule head_append_digits)
  have c: "\<forall>c \<in> set (trailing_digits mid). isdigit c"
    by (simp add: trailing_digits_isdigit)
  have d: "fst (natural_key mid) = [] \<or> \<not> isdigit (last (fst (natural_key mid)))"
    unfolding k using head_ends_nondigit [of mid] by blast
  have e: "fst (snd (natural_key mid)) =
        (if trailing_digits mid = [] then -1 else int_of_digits (trailing_digits mid))"
    by (simp add: natural_key_def Let_def)
  have f: "0 \<le> int_of_digits (trailing_digits mid)"
    by (rule int_of_digits_nonneg)
  have g: "sort_key_ids mid = (fst (natural_key mid), fst (snd (natural_key mid)))"
    by (simp add: natural_key_def sort_key_ids_def Let_def)
  have h: "sort_key natural_key [''m1'', ''m2'', ''m10''] = [''m1'', ''m2'', ''m10'']"
    by code_simp
  have i: "natural_sort_ids [''m1'', ''m2'', ''m10''] = [''m1'', ''m2'', ''m10'']"
    by code_simp
  from a b c d e f g h i show ?thesis by blast
qed

theorem natural_key_triple_witness:
  "natural_key ''m10'' = (''m'', 10, ''m10'') \<and> sort_key_ids ''m10'' = (''m'', 10)
   \<and> natural_key ''box'' = (''box'', -1, ''box'')"
proof -
  have td: "trailing_digits ''m10'' = ''10''" by code_simp
  have iv: "int_of_digits ''10'' = 10" by code_simp
  have tb: "trailing_digits ''box'' = []" by code_simp
  from natural_key_triple [of "''m10''"] natural_key_triple [of "''box''"] td iv tb
  show ?thesis
    by (simp add: prod_eq_iff)
qed

text \<open>The claim as written fails on the script: \<^verbatim>\<open>m1\<close> and \<^verbatim>\<open>m01\<close> have the same key there,
  so the stable sort keeps them in the order given, although \<^verbatim>\<open>m01\<close> is the smaller text.\<close>

theorem sort_key_ids_no_tie_break:
  "sort_key_ids ''m1'' = sort_key_ids ''m01'' \<and> ''m01'' < ''m1''
   \<and> natural_sort_ids [''m1'', ''m01''] = [''m1'', ''m01'']
   \<and> natural_sort_ids [''m1'', ''m01''] \<noteq> sort_key natural_key [''m1'', ''m01'']"
  by code_simp

subsection \<open>Parsing\<close>

lemma set_map_filter: "set (List.map_filter f xs) = {y. \<exists>x \<in> set xs. f x = Some y}"
  by (induction xs) (auto simp: List.map_filter_simps split: option.splits)

lemma split_nonempty: "split line \<noteq> [] \<Longrightarrow> line \<noteq> []"
  by (auto simp: split_def)

text \<open>
  Claim C7, as amended. A line whose first token parses as a number and that has at least
  five fields becomes a row of type \<^verbatim>\<open>S\<close>, respectively \<^verbatim>\<open>CONN\<close>, of the data frame of
  \<^verbatim>\<open>parse_eventlogreport\<close> when its second token is \<^verbatim>\<open>S\<close>, respectively \<^verbatim>\<open>CONN\<close>. The reading
  loop of the script appends nothing for such a line: it knows the shapes \<^verbatim>\<open>C\<close> and \<^verbatim>\<open>DE\<close>
  only.
\<close>

theorem pd_line_send_conn:
  assumes "split (strip raw) = parts" and "5 \<le> length parts"
    and "to_float (parts ! 0) = Some t"
  shows "(parts ! 1 = ''S'' \<longrightarrow>
            pd_line to_float raw =
              Some \<lparr>row_Time = t, row_Type = ''S'', row_Src = parts ! 2,
                    row_Dst = Some (parts ! 3), row_Id = Some (parts ! 4), row_Status = None\<rparr>)
       \<and> (parts ! 1 = ''CONN'' \<longrightarrow>
            pd_line to_float raw =
              Some \<lparr>row_Time = t, row_Type = ''CONN'', row_Src = parts ! 2,
                    row_Dst = Some (parts ! 3), row_Id = None, row_Status = Some (parts ! 4)\<rparr>)
       \<and> (\<forall>r. pd_line to_float raw = Some r \<and> raw \<in> set lines
              \<longrightarrow> r \<in> set (parse_eventlogreport to_float lines))
       \<and> (parts ! 1 = ''S'' \<or> parts ! 1 = ''CONN'' \<longrightarrow> script_line to_float raw = None)"
proof -
  from assms(2) obtain p ps where parts: "parts = p # ps"
    by (cases parts) auto
  from assms(1) parts have ne: "strip raw \<noteq> []"
    using split_nonempty [of "strip raw"] by simp
  from assms(3) parts have tf: "to_float p = Some t" by simp
  have len: "1 < length parts" "4 \<le> length parts" using assms(2) by simp_all
  have s: "parts ! 1 = ''S'' \<Longrightarrow> pd_line to_float raw =
              Some \<lparr>row_Time = t, row_Type = ''S'', row_Src = parts ! 2,
                    row_Dst = Some (parts ! 3), row_Id = Some (parts ! 4), row_Status = None\<rparr>"
    using ne tf len assms(2) by (simp add: pd_line_def Let_def assms(1) parts)
  have c: "parts ! 1 = ''CONN'' \<Longrightarrow> pd_line to_float raw =
              Some \<lparr>row_Time = t, row_Type = ''CONN'', row_Src = parts ! 2,
                    row_Dst = Some (parts ! 3), row_Id = None, row_Status = Some (parts ! 4)\<rparr>"
    using ne tf len assms(2) by (simp add: pd_line_def Let_def assms(1) parts)
  have m: "\<forall>r. pd_line to_float raw = Some r \<and> raw \<in> set lines
              \<longrightarrow> r \<in> set (parse_eventlogreport to_float lines)"
    by (auto simp: parse_eventlogreport_def set_map_filter)
  have n: "parts ! 1 = ''S'' \<or> parts ! 1 = ''CONN'' \<Longrightarrow> script_line to_float raw = None"
    using ne tf len by (auto simp: script_line_def Let_def assms(1) parts)
  from s c m n show ?thesis by blast
qed

theorem pd_line_send_conn_witness:
  "parse_eventlogreport float_of_decimal [''5 S a b M_H1'', ''7 CONN a b up''] =
     [\<lparr>row_Time = Fin 5, row_Type = ''S'', row_Src = ''a'', row_Dst = Some ''b'',
       row_Id = Some ''M_H1'', row_Status = None\<rparr>,
      \<lparr>row_Time = Fin 7, row_Type = ''CONN'', row_Src = ''a'', row_Dst = Some ''b'',
       row_Id = None, row_Status = Some ''up''\<rparr>]
   \<and> script_line float_of_decimal ''5 S a b M_H1'' = None"
proof -
  have s1: "split (strip ''5 S a b M_H1'') = [''5'', ''S'', ''a'', ''b'', ''M_H1'']"
    by code_simp
  have s2: "split (strip ''7 CONN a b up'') = [''7'', ''CONN'', ''a'', ''b'', ''up'']"
    by code_simp
  have f1: "float_of_decimal ([''5'', ''S'', ''a'', ''b'', ''M_H1''] ! 0) = Some (Fin 5)"
    by code_simp
  have f2: "float_of_decimal ([''7'', ''CONN'', ''a'', ''b'', ''up''] ! 0) = Some (Fin 7)"
    by code_simp
  have l1: "5 \<le> length [''5'', ''S'', ''a'', ''b'', ''M_H1'']" by simp
  have l2: "5 \<le> length [''7'', ''CONN'', ''a'', ''b'', ''up'']" by simp
  note a = pd_line_send_conn [where to_float = float_of_decimal and lines = "[]", OF s1 l1 f1]
  note b = pd_line_send_conn [where to_float = float_of_decimal and lines = "[]", OF s2 l2 f2]
  from a b show ?thesis
    by (simp add: parse_eventlogreport_def)
qed

text \<open>The claim as written fails on the reading loop of the script, which skips both lines.\<close>

theorem script_skips_send_conn:
  "events_of_log float_of_decimal [''5 S a b M_H1'', ''7 CONN a b up''] = []"
  by code_simp

subsection \<open>Hour bins\<close>

lemma float_window:
  "(float_gt x a \<and> float_le x b) = (\<exists>t. x = Fin t \<and> of_int a < t \<and> t \<le> of_int b)"
  by (cases x) auto

lemma float_window_left_closed:
  "(float_ge x a \<and> float_lt x b) = (\<exists>t. x = Fin t \<and> of_int a \<le> t \<and> t < of_int b)"
  by (cases x) auto

lemma bin_index_le:
  fixes W :: int
  assumes "(a - 1) * W < b * W" and "(b - 1) * W < b * W"
  shows "a \<le> b"
proof -
  from assms(2) have W: "0 < W" by (simp add: algebra_simps)
  with assms(1) have "a - 1 < b" by (simp add: mult_less_cancel_right_pos)
  then show ?thesis by simp
qed

lemma bins_share_no_time:
  fixes t :: rat
  assumes "of_int ((int h - 1) * W) < t" and "t \<le> of_int (int h * W)"
    and "of_int ((int h' - 1) * W) < t" and "t \<le> of_int (int h' * W)"
  shows "h = h'"
proof -
  have i1: "(int h - 1) * W < int h * W"
    using assms(1,2) by (metis less_le_trans of_int_less_iff)
  have i2: "(int h' - 1) * W < int h' * W"
    using assms(3,4) by (metis less_le_trans of_int_less_iff)
  have i3: "(int h' - 1) * W < int h * W"
    using assms(3,2) by (metis less_le_trans of_int_less_iff)
  have i4: "(int h - 1) * W < int h' * W"
    using assms(1,4) by (metis less_le_trans of_int_less_iff)
  from bin_index_le [OF i3 i1] bin_index_le [OF i4 i2] show ?thesis by simp
qed

lemma hour_events_iff:
  "e \<in> set (hour_events W rd mid h) \<longleftrightarrow>
     e \<in> set rd \<and> e_id e = mid
     \<and> (\<exists>t. e_time e = Fin t \<and> of_int ((int h - 1) * W) < t \<and> t \<le> of_int (int h * W))"
  unfolding hour_events_def set_filter mem_Collect_eq conj_assoc float_window ..

lemma h_slice_iff:
  "r \<in> set (h_slice sub start stop) \<longleftrightarrow>
     r \<in> set sub \<and> (\<exists>t. row_Time r = Fin t \<and> of_int start < t \<and> t \<le> of_int stop)"
  unfolding h_slice_def set_filter mem_Collect_eq float_window ..

lemma hourly_bins_mem:
  "(h, s, e) \<in> set (hourly_bins H W) \<longleftrightarrow> 1 \<le> h \<and> h \<le> H \<and> s = (int h - 1) * W \<and> e = int h * W"
  by (auto simp: hourly_bins_def)

lemma grouped_data_filter:
  "grouped_data to_float (s, e) data = Inr g \<Longrightarrow>
   g = filter (\<lambda>entry. \<exists>t. to_float (hd entry) = Some t \<and> float_ge t s \<and> float_lt t e) data"
proof (induction data arbitrary: g)
  case Nil
  then show ?case by simp
next
  case (Cons entry data)
  then show ?case
    by (auto split: list.splits option.splits sum.splits if_splits)
qed

lemma grouped_data_iff:
  assumes "grouped_data to_float (s, e) data = Inr g"
  shows "entry \<in> set g \<longleftrightarrow>
     entry \<in> set data
     \<and> (\<exists>t. to_float (hd entry) = Some (Fin t) \<and> of_int s \<le> t \<and> t < of_int e)"
proof -
  have "(\<exists>x. to_float (hd entry) = Some x \<and> float_ge x s \<and> float_lt x e)
      = (\<exists>t. to_float (hd entry) = Some (Fin t) \<and> of_int s \<le> t \<and> t < of_int e)"
    unfolding float_window_left_closed by auto
  then show ?thesis
    unfolding grouped_data_filter [OF assms] by simp
qed

lemma time_range_nth: "k < 12 \<Longrightarrow> time_range ! k = (int k * 3600, (int k + 1) * 3600)"
  by (simp add: time_range_def algebra_simps)

lemma ranges_share_no_time:
  fixes t :: rat
  assumes "of_int (int k * 3600) \<le> t" and "t < of_int ((int k + 1) * 3600)"
    and "of_int (int k' * 3600) \<le> t" and "t < of_int ((int k' + 1) * 3600)"
  shows "k = k'"
proof -
  have "int k * 3600 < (int k' + 1) * 3600"
    using assms(1,4) by (metis le_less_trans of_int_less_iff)
  moreover have "int k' * 3600 < (int k + 1) * 3600"
    using assms(3,2) by (metis le_less_trans of_int_less_iff)
  ultimately show ?thesis by simp
qed

text \<open>
  Claim C8, as amended. In both programs of \<^verbatim>\<open>RESULT.py\<close> the events of hour \<open>h\<close> are those
  with \<open>(h - 1) * W < time \<le> h * W\<close> (an infinite or NaN time is in no hour), the bins of
  \<^verbatim>\<open>hourly_bins\<close> are \<open>(h, (h - 1) * W, h * W)\<close> for \<open>h = 1..H\<close>, so that each begins where the
  one before ends, and no event is in two hours. The windows of \<^verbatim>\<open>process_and_save\<close> in
  \<^verbatim>\<open>sainaosi.py\<close> are \<open>start \<le> time < end\<close> with \<open>start = k * 3600\<close> and
  \<open>end = (k + 1) * 3600\<close> for \<open>k = 0..11\<close>; no entry is in two of them either.
\<close>

theorem hour_bin_membership:
  "(e \<in> set (hour_events W rd mid h) \<longleftrightarrow>
      e \<in> set rd \<and> e_id e = mid
      \<and> (\<exists>t. e_time e = Fin t \<and> of_int ((int h - 1) * W) < t \<and> t \<le> of_int (int h * W)))
   \<and> (e \<in> set (hour_events W rd mid h) \<and> e \<in> set (hour_events W rd mid h') \<longrightarrow> h = h')
   \<and> (r \<in> set (h_slice sub start stop) \<longleftrightarrow>
      r \<in> set sub \<and> (\<exists>t. row_Time r = Fin t \<and> of_int start < t \<and> t \<le> of_int stop))
   \<and> ((h, s1, e1) \<in> set (hourly_bins H W) \<longleftrightarrow>
      1 \<le> h \<and> h \<le> H \<and> s1 = (int h - 1) * W \<and> e1 = int h * W)
   \<and> ((h, s1, e1) \<in> set (hourly_bins H W) \<and> (h', s2, e2) \<in> set (hourly_bins H W)
      \<and> r \<in> set (h_slice sub s1 e1) \<and> r \<in> set (h_slice sub s2 e2) \<longrightarrow> h = h')
   \<and> (grouped_data to_float (start, stop) data = Inr g \<longrightarrow>
      (entry \<in> set g \<longleftrightarrow>
         entry \<in> set data
         \<and> (\<exists>t. to_float (hd entry) = Some (Fin t) \<and> of_int start \<le> t \<and> t < of_int stop)))
   \<and> (k < 12 \<longrightarrow> time_range ! k = (int k * 3600, (int k + 1) * 3600))
   \<and> (k < 12 \<and> k' < 12
      \<and> grouped_data to_float (time_range ! k) data = Inr g
      \<and> grouped_data to_float (time_range ! k') data = Inr g'
      \<and> entry \<in> set g \<and> entry \<in> set g' \<longrightarrow> k = k')"
proof -
  have a: "e \<in> set (hour_events W rd mid h) \<and> e \<in> set (hour_events W rd mid h') \<longrightarrow> h = h'"
    unfolding hour_events_iff using bins_share_no_time [of h W _ h'] by fastforce
  have b: "(h, s1, e1) \<in> set (hourly_bins H W) \<and> (h', s2, e2) \<in> set (hourly_bins H W)
      \<and> r \<in> set (h_slice sub s1 e1) \<and> r \<in> set (h_slice sub s2 e2) \<longrightarrow> h = h'"
    unfolding hourly_bins_mem h_slice_iff using bins_share_no_time [of h W _ h'] by fastforce
  have c: "k < 12 \<and> k' < 12
      \<and> grouped_data to_float (time_range ! k) data = Inr g
      \<and> grouped_data to_float (time_range ! k') data = Inr g'
      \<and> entry \<in> set g \<and> entry \<in> set g' \<longrightarrow> k = k'"
  proof (intro impI, elim conjE)
    assume k: "k < 12" "k' < 12"
      and g: "grouped_data to_float (time_range ! k) data = Inr g"
             "grouped_data to_float (time_range ! k') data = Inr g'"
      and m: "entry \<in> set g" "entry \<in> set g'"
    from g(1) k(1) have g1: "grouped_data to_float (int k * 3600, (int k + 1) * 3600) data = Inr g"
      by (simp only: time_range_nth)
    from g(2) k(2) have g2: "grouped_data to_float (int k' * 3600, (int k' + 1) * 3600) data = Inr g'"
      by (simp only: time_range_nth)
    from m(1) obtain t where t: "to_float (hd entry) = Some (Fin t)"
        "of_int (int k * 3600) \<le> t" "t < of_int ((int k + 1) * 3600)"
      unfolding grouped_data_iff [OF g1] by blast
    from m(2) obtain t' where t': "to_float (hd entry) = Some (Fin t')"
        "of_int (int k' * 3600) \<le> t'" "t' < of_int ((int k' + 1) * 3600)"
      unfolding grouped_data_iff [OF g2] by blast
    from t(1) t'(1) have "t' = t" by simp
    with t t' show "k = k'" using ranges_share_no_time [of k t k'] by blast
  qed
  from a b c show ?thesis
    using hour_events_iff [of e W rd mid h] h_slice_iff [of r sub start stop]
      hourly_bins_mem [of h s1 e1 H W] grouped_data_iff [of to_float start stop data g entry]
      time_range_nth [of k]
    by blast
qed


theorem hour_bin_membership_witness:
  "\<lparr>e_time = Fin 3600, e_type = ''R'', e_src = ''a'', e_dst = Some ''b'', e_id = ''M_H1''\<rparr>
     \<in> set (hour_events 3600
         [\<lparr>e_time = Fin 3600, e_type = ''R'', e_src = ''a'', e_dst = Some ''b'', e_id = ''M_H1''\<rparr>]
         ''M_H1'' 1)
   \<and> \<lparr>e_time = Fin 3600, e_type = ''R'', e_src = ''a'', e_dst = Some ''b'', e_id = ''M_H1''\<rparr>
     \<notin> set (hour_events 3600
         [\<lparr>e_time = Fin 3600, e_type = ''R'', e_src = ''a'', e_dst = Some ''b'', e_id = ''M_H1''\<rparr>]
         ''M_H1'' 2)
   \<and> (2, 3600, 7200) \<in> set (hourly_bins 12 3600)
   \<and> time_range ! 1 = (3600, 7200)
   \<and> [''3600'', ''DE'', ''a'', ''b'', ''M_H1'', ''R'']
     \<in> set (projr (grouped_data float_of_decimal (3600, 7200)
                [[''3600'', ''DE'', ''a'', ''b'', ''M_H1'', ''R'']]))"
proof -
  let ?e = "\<lparr>e_time = Fin 3600, e_type = ''R'', e_src = ''a'', e_dst = Some ''b'', e_id = ''M_H1''\<rparr>"
  let ?entry = "[''3600'', ''DE'', ''a'', ''b'', ''M_H1'', ''R'']"
  have g: "grouped_data float_of_decimal (3600, 7200) [?entry] = Inr [?entry]"
    by code_simp
  have f: "float_of_decimal (hd ?entry) = Some (Fin 3600)"
    by code_simp
  note w = hour_bin_membership [where e = ?e and W = 3600 and rd = "[?e]" and mid = "''M_H1''"
      and h = 1 and h' = 2 and H = 12 and ?s1.0 = 0 and ?e1.0 = 3600
      and to_float = float_of_decimal and start = 3600 and stop = 7200 and data = "[?entry]"
      and g = "[?entry]" and entry = ?entry and k = 1 and k' = 1]
  have m1: "?e \<in> set (hour_events 3600 [?e] ''M_H1'' 1)"
    using w by simp
  have m2: "?e \<notin> set (hour_events 3600 [?e] ''M_H1'' 2)"
    using w m1 by auto
  have b: "(2, 3600, 7200) \<in> set (hourly_bins 12 3600)"
    using hour_bin_membership [where h = 2 and ?s1.0 = 3600 and ?e1.0 = 7200 and H = 12 and W = 3600]
    by simp
  have r: "time_range ! 1 = (3600, 7200)"
    using w by simp
  have e: "?entry \<in> set (projr (grouped_data float_of_decimal (3600, 7200) [?entry]))"
    using w g f by simp
  from m1 m2 b r e show ?thesis by blast
qed

text \<open>The claim as written fails on \<^verbatim>\<open>process_and_save\<close>, whose windows are closed on the left
  and open on the right: an entry at 3600 s goes to the second window, not the first, and
  an entry at 0 s is in the first.\<close>

theorem sainaosi_window_left_closed:
  "grouped_data float_of_decimal (time_range ! 0) [[''3600'', ''DE'', ''a'', ''b'', ''M_H1'', ''R'']]
     = Inr []
   \<and> grouped_data float_of_decimal (time_range ! 1) [[''3600'', ''DE'', ''a'', ''b'', ''M_H1'', ''R'']]
     = Inr [[''3600'', ''DE'', ''a'', ''b'', ''M_H1'', ''R'']]
   \<and> grouped_data float_of_decimal (time_range ! 0) [[''0'', ''DE'', ''a'', ''b'', ''M_H1'', ''R'']]
     = Inr [[''0'', ''DE'', ''a'', ''b'', ''M_H1'', ''R'']]"
  by code_simp

subsection \<open>Low-priority messages\<close>

lemma delivered_once_ids_iff:
  "i \<in> delivered_once_ids events \<longleftrightarrow>
     (\<exists>e \<in> set events. e_type e = ''D'' \<and> is_low_id (Some (e_id e)) \<and> e_id e = i)"
  by (auto simp: delivered_once_ids_def)

lemma delivered_once_ids_append:
  "delivered_once_ids (events @ later) = delivered_once_ids events \<union> delivered_once_ids later"
  by (simp add: delivered_once_ids_def)

lemma delivered_once_ids_single:
  "delivered_once_ids [e] = (if e_type e = ''D'' \<and> is_low_id (Some (e_id e)) then {e_id e} else {})"
  by (simp add: delivered_once_ids_def)

lemma delivered_once_ids_replicate:
  "0 < n \<Longrightarrow> delivered_once_ids (replicate n e) = delivered_once_ids [e]"
  by (auto simp: delivered_once_ids_def)

lemma finite_delivered_once_ids: "finite (delivered_once_ids events)"
  by (simp add: delivered_once_ids_def)

lemma P_total_step:
  "P_total (events @ [e]) =
     P_total events
       + (if e_type e = ''D'' \<and> is_low_id (Some (e_id e)) \<and> e_id e \<notin> delivered_once_ids events
          then 1 else 0)"
  by (simp add: P_total_def delivered_once_ids_append delivered_once_ids_single
      finite_delivered_once_ids insert_absorb)

lemma dropna_Some: "i \<in> set (dropna col) \<longleftrightarrow> Some i \<in> set col"
  by (induction col) (auto simp: dropna_def List.map_filter_simps split: option.splits)

lemma set_unique: "set (unique xs) = set xs"
  by (simp add: unique_def)

lemma delivered_ids_iff:
  "i \<in> delivered_ids df \<longleftrightarrow>
     (\<exists>r \<in> set df. row_Type r = ''DE'' \<and> row_Status r = Some ''D''
                  \<and> row_Id r = Some i \<and> ID_LOW_RE i)"
  by (auto simp: delivered_ids_def set_unique dropna_Some low_rows_def astype_str_def image_iff)

lemma finite_delivered_ids: "finite (delivered_ids df)"
  by (simp add: delivered_ids_def)

lemma delivered_ids_snoc:
  "delivered_ids (df @ [r]) =
     (if row_Type r = ''DE'' \<and> row_Status r = Some ''D''
         \<and> row_Id r \<noteq> None \<and> ID_LOW_RE (astype_str (row_Id r))
      then insert (astype_str (row_Id r)) (delivered_ids df) else delivered_ids df)"
  by (auto simp: delivered_ids_iff astype_str_def)

lemma received_low_ge: "n \<le> fst (received_low tohosts seen n)"
proof (induction tohosts arbitrary: seen n)
  case Nil
  then show ?case by simp
next
  case (Cons tohost rest)
  have "n + 2 \<le> fst (received_low rest (insert tohost seen) (n + 2))"
    by (rule Cons.IH)
  with Cons.IH [of n seen] show ?case by simp
qed

lemma received_low_unchanged_iff:
  "fst (received_low tohosts seen n) = n \<longleftrightarrow> set tohosts \<subseteq> seen"
proof (induction tohosts arbitrary: seen n)
  case Nil
  then show ?case by simp
next
  case (Cons tohost rest)
  show ?case
  proof (cases "tohost \<in> seen")
    case True
    with Cons.IH [of seen n] show ?thesis by simp
  next
    case False
    have "n + 2 \<le> fst (received_low rest (insert tohost seen) (n + 2))"
      by (rule received_low_ge)
    with False show ?thesis by simp
  qed
qed

text \<open>
  Claim C6, as amended. In both programs of \<^verbatim>\<open>RESULT.py\<close> the count \<open>P\<close> is the number of
  distinct low-priority identifiers with at least one \<^verbatim>\<open>D\<close> event: one more event raises it
  by 1 when the event is the first \<^verbatim>\<open>D\<close> event of a low-priority identifier and by 0
  otherwise, so any number of repetitions of a delivery counts as one. The counter of
  \<^verbatim>\<open>calculate_low\<close> in \<^verbatim>\<open>sainaosi.py\<close> is keyed by the destination host, not by the
  identifier: it stays as it is exactly when every destination was seen before.
\<close>

theorem first_delivery_counts_once:
  "P_total events =
     card {i. \<exists>e \<in> set events. e_type e = ''D'' \<and> is_low_id (Some (e_id e)) \<and> e_id e = i}
   \<and> P_total (events @ [e]) =
       P_total events
         + (if e_type e = ''D'' \<and> is_low_id (Some (e_id e)) \<and> e_id e \<notin> delivered_once_ids events
            then 1 else 0)
   \<and> (0 < n \<longrightarrow> P_total (events @ replicate n e) = P_total (events @ [e]))
   \<and> (calc_low_arrival_rate_first_delivery df = Inr s \<longrightarrow>
        pd_P_first_delivered_messages s =
          card {i. \<exists>r \<in> set df. row_Type r = ''DE'' \<and> row_Status r = Some ''D''
                      \<and> row_Id r = Some i \<and> ID_LOW_RE i})
   \<and> card (delivered_ids (df @ [r])) =
       card (delivered_ids df)
         + (if row_Type r = ''DE'' \<and> row_Status r = Some ''D'' \<and> row_Id r \<noteq> None
               \<and> ID_LOW_RE (astype_str (row_Id r)) \<and> astype_str (row_Id r) \<notin> delivered_ids df
            then 1 else 0)
   \<and> (fst (received_low tohosts seen k) = k \<longleftrightarrow> set tohosts \<subseteq> seen)"
proof -
  have a: "P_total events =
     card {i. \<exists>e \<in> set events. e_type e = ''D'' \<and> is_low_id (Some (e_id e)) \<and> e_id e = i}"
    unfolding P_total_def by (rule arg_cong [where f = card]) (auto simp: delivered_once_ids_iff)
  have c: "0 < n \<longrightarrow> P_total (events @ replicate n e) = P_total (events @ [e])"
    by (simp add: P_total_def delivered_once_ids_append delivered_once_ids_replicate)
  have "delivered_ids df = {i. \<exists>r \<in> set df. row_Type r = ''DE'' \<and> row_Status r = Some ''D''
                      \<and> row_Id r = Some i \<and> ID_LOW_RE i}"
    by (auto simp: delivered_ids_iff)
  then have d: "calc_low_arrival_rate_first_delivery df = Inr s \<longrightarrow>
        pd_P_first_delivered_messages s =
          card {i. \<exists>r \<in> set df. row_Type r = ''DE'' \<and> row_Status r = Some ''D''
                      \<and> row_Id r = Some i \<and> ID_LOW_RE i}"
    by (auto simp: calc_low_arrival_rate_first_delivery_def Let_def split: if_splits)
  have f: "card (delivered_ids (df @ [r])) =
       card (delivered_ids df)
         + (if row_Type r = ''DE'' \<and> row_Status r = Some ''D'' \<and> row_Id r \<noteq> None
               \<and> ID_LOW_RE (astype_str (row_Id r)) \<and> astype_str (row_Id r) \<notin> delivered_ids df
            then 1 else 0)"
    by (auto simp: delivered_ids_snoc finite_delivered_ids insert_absorb)
  from a c d f P_total_step [of events e] received_low_unchanged_iff [of tohosts seen k]
  show ?thesis by blast
qed

theorem first_delivery_counts_once_witness:
  "P_total ([\<lparr>e_time = Fin 1, e_type = ''D'', e_src = ''a'', e_dst = Some ''b'', e_id = ''M_L1''\<rparr>]
      @ replicate 4 \<lparr>e_time = Fin 2, e_type = ''D'', e_src = ''a'', e_dst = Some ''c'', e_id = ''M_L1''\<rparr>)
     = 1
   \<and> pd_P_first_delivered_messages (projr (calc_low_arrival_rate_first_delivery
        (parse_eventlogreport float_of_decimal [''1 DE a b M_L1 D''] @
         parse_eventlogreport float_of_decimal [''2 DE a c M_L1 D'']))) = 1"
proof -
  let ?e1 = "\<lparr>e_time = Fin 1, e_type = ''D'', e_src = ''a'', e_dst = Some ''b'', e_id = ''M_L1''\<rparr>"
  let ?e2 = "\<lparr>e_time = Fin 2, e_type = ''D'', e_src = ''a'', e_dst = Some ''c'', e_id = ''M_L1''\<rparr>"
  let ?df = "parse_eventlogreport float_of_decimal [''1 DE a b M_L1 D'']"
  let ?r = "\<lparr>row_Time = Fin 2, row_Type = ''DE'', row_Src = ''a'', row_Dst = Some ''c'',
             row_Id = Some ''M_L1'', row_Status = Some ''D''\<rparr>"
  have p1: "P_total [?e1] = 1" by code_simp
  have m: "e_id ?e2 \<in> delivered_once_ids [?e1]" by code_simp
  have n: "(0::nat) < 4" by simp
  have r: "parse_eventlogreport float_of_decimal [''2 DE a c M_L1 D''] = [?r]" by code_simp
  have d1: "card (delivered_ids ?df) = 1" by code_simp
  have d2: "astype_str (row_Id ?r) \<in> delivered_ids ?df" by code_simp
  have s: "pd_P_first_delivered_messages (projr (calc_low_arrival_rate_first_delivery (?df @ [?r])))
            = card (delivered_ids (?df @ [?r]))"
    by (simp add: calc_low_arrival_rate_first_delivery_def Let_def)
  note w = first_delivery_counts_once [where events = "[?e1]" and e = ?e2 and n = 4
      and df = ?df and r = ?r]
  have a: "P_total ([?e1] @ replicate 4 ?e2) = 1"
    using w p1 m n by simp
  have b: "card (delivered_ids (?df @ [?r])) = 1"
    using w d1 d2 by simp
  from a b s r show ?thesis by simp
qed

text \<open>The claim as written fails on \<^verbatim>\<open>calculate_low\<close> of \<^verbatim>\<open>sainaosi.py\<close>: one identifier delivered
  twice, to two hosts, is counted as 4, and delivered once it is counted as 2.\<close>

theorem calculate_low_counts_hosts:
  "map M_L_Received (calculate_low [(''3cluster_1.csv'',
      [\<lparr>csv_Time = ''10'', csv_Type = ''DE'', csv_Host = ''a'', csv_Tohost = ''b'',
        csv_Id = ''M_L1'', csv_Status = ''D''\<rparr>,
       \<lparr>csv_Time = ''20'', csv_Type = ''DE'', csv_Host = ''a'', csv_Tohost = ''c'',
        csv_Id = ''M_L1'', csv_Status = ''D''\<rparr>])]) = [4]
   \<and> map M_L_Received (calculate_low [(''3cluster_1.csv'',
      [\<lparr>csv_Time = ''10'', csv_Type = ''DE'', csv_Host = ''a'', csv_Tohost = ''b'',
        csv_Id = ''M_L1'', csv_Status = ''D''\<rparr>])]) = [2]"
  by code_simp





subsection \<open>Low-priority counting and node exclusion\<close>

lemma created_low_redirect:
  "created_low (map (\<lambda>e. e\<lparr>e_dst := f e\<rparr>) events) = map (\<lambda>e. e\<lparr>e_dst := f e\<rparr>) (created_low events)"
  by (simp add: created_low_def filter_map o_def)

lemma delivered_once_ids_redirect:
  "delivered_once_ids (map (\<lambda>e. e\<lparr>e_dst := f e\<rparr>) events) = delivered_once_ids events"
  by (simp add: delivered_once_ids_def filter_map o_def)

lemma L_total_redirect: "L_total (map (\<lambda>e. e\<lparr>e_dst := f e\<rparr>) events) = L_total events"
  by (simp add: L_total_def created_low_redirect)

lemma L_per_id_redirect: "L_per_id (map (\<lambda>e. e\<lparr>e_dst := f e\<rparr>) events) = L_per_id events"
  by (rule ext) (simp add: L_per_id_def created_low_redirect filter_map o_def)

lemma L_keys_redirect: "L_keys (map (\<lambda>e. e\<lparr>e_dst := f e\<rparr>) events) = L_keys events"
  by (simp add: L_keys_def created_low_redirect o_def)

lemma ML_arrival_rate_redirect:
  "ML_arrival_rate (map (\<lambda>e. e\<lparr>e_dst := f e\<rparr>) events) = ML_arrival_rate events"
  by (simp add: ML_arrival_rate_def rate_total_def P_total_def L_total_redirect
      delivered_once_ids_redirect)

lemma ML_arrival_rate_by_id_redirect:
  "ML_arrival_rate_by_id (map (\<lambda>e. e\<lparr>e_dst := f e\<rparr>) events) = ML_arrival_rate_by_id events"
  by (simp add: ML_arrival_rate_by_id_def L_per_id_redirect L_keys_redirect
      delivered_once_ids_redirect)

lemma low_rows_redirect:
  "low_rows (map (\<lambda>r. r\<lparr>row_Dst := f r\<rparr>) df) = map (\<lambda>r. r\<lparr>row_Dst := f r\<rparr>) (low_rows df)"
  by (simp add: low_rows_def filter_map o_def)

lemma calc_low_redirect:
  "calc_low_arrival_rate_first_delivery (map (\<lambda>r. r\<lparr>row_Dst := f r\<rparr>) df)
     = calc_low_arrival_rate_first_delivery df"
  by (simp add: calc_low_arrival_rate_first_delivery_def delivered_ids_def low_rows_redirect
      filter_map o_def Let_def)

text \<open>
  Claim C10. A \<^verbatim>\<open>D\<close> event of a low-priority identifier puts the identifier into the
  delivered set whatever its destination is, an excluded one included, so that \<open>P\<close> is at
  least 1. Everything the script writes about low-priority messages is the same for every
  setting of the exclusion flags and for every change of the destinations of the events;
  the summary of the pandas program does not depend on the destinations either (and the
  function does not read the flag).
\<close>

theorem low_counting_ignores_exclusion:
  "(e \<in> set events \<and> e_type e = ''D'' \<and> is_low_id (Some (e_id e))
      \<longrightarrow> e_id e \<in> delivered_once_ids events \<and> 1 \<le> P_total events)
   \<and> out_ML_summary (script cfg (map (\<lambda>e. e\<lparr>e_dst := f e\<rparr>) events))
       = out_ML_summary (script cfg' events)
   \<and> out_ML_by_id (script cfg (map (\<lambda>e. e\<lparr>e_dst := f e\<rparr>) events))
       = out_ML_by_id (script cfg' events)
   \<and> (r \<in> set df \<and> row_Type r = ''DE'' \<and> row_Status r = Some ''D''
        \<and> row_Id r = Some i \<and> ID_LOW_RE i
      \<longrightarrow> i \<in> delivered_ids df \<and> 1 \<le> card (delivered_ids df))
   \<and> calc_low_arrival_rate_first_delivery (map (\<lambda>r. r\<lparr>row_Dst := g r\<rparr>) df)
       = calc_low_arrival_rate_first_delivery df"
proof -
  have a: "e \<in> set events \<and> e_type e = ''D'' \<and> is_low_id (Some (e_id e))
      \<longrightarrow> e_id e \<in> delivered_once_ids events \<and> 1 \<le> P_total events"
  proof (intro impI)
    assume h: "e \<in> set events \<and> e_type e = ''D'' \<and> is_low_id (Some (e_id e))"
    then have m: "e_id e \<in> delivered_once_ids events"
      by (auto simp: delivered_once_ids_iff)
    then have "0 < card (delivered_once_ids events)"
      using finite_delivered_once_ids [of events] by (auto simp: card_gt_0_iff)
    with m show "e_id e \<in> delivered_once_ids events \<and> 1 \<le> P_total events"
      by (simp add: P_total_def)
  qed
  have b: "r \<in> set df \<and> row_Type r = ''DE'' \<and> row_Status r = Some ''D''
        \<and> row_Id r = Some i \<and> ID_LOW_RE i
      \<longrightarrow> i \<in> delivered_ids df \<and> 1 \<le> card (delivered_ids df)"
  proof (intro impI)
    assume h: "r \<in> set df \<and> row_Type r = ''DE'' \<and> row_Status r = Some ''D''
        \<and> row_Id r = Some i \<and> ID_LOW_RE i"
    then have m: "i \<in> delivered_ids df"
      by (auto simp: delivered_ids_iff)
    then have "0 < card (delivered_ids df)"
      using finite_delivered_ids [of df] by (auto simp: card_gt_0_iff)
    with m show "i \<in> delivered_ids df \<and> 1 \<le> card (delivered_ids df)"
      by simp
  qed
  have c: "out_ML_summary (script cfg (map (\<lambda>e. e\<lparr>e_dst := f e\<rparr>) events))
       = out_ML_summary (script cfg' events)"
    by (simp add: script_def ML_arrival_rate_redirect)
  have d: "out_ML_by_id (script cfg (map (\<lambda>e. e\<lparr>e_dst := f e\<rparr>) events))
       = out_ML_by_id (script cfg' events)"
    by (simp add: script_def ML_arrival_rate_by_id_redirect)
  from a b c d calc_low_redirect [of g df] show ?thesis by blast
qed

theorem low_counting_ignores_exclusion_witness:
  "is_box (Some ''box1'')
   \<and> ''M_L1'' \<in> delivered_once_ids
        [\<lparr>e_time = Fin 6, e_type = ''D'', e_src = ''a'', e_dst = Some ''box1'', e_id = ''M_L1''\<rparr>]
   \<and> 1 \<le> P_total
        [\<lparr>e_time = Fin 6, e_type = ''D'', e_src = ''a'', e_dst = Some ''box1'', e_id = ''M_L1''\<rparr>]
   \<and> BOX_RE ''box1''
   \<and> ''M_L1'' \<in> delivered_ids
        [\<lparr>row_Time = Fin 6, row_Type = ''DE'', row_Src = ''a'', row_Dst = Some ''box1'',
          row_Id = Some ''M_L1'', row_Status = Some ''D''\<rparr>]"
proof -
  let ?e = "\<lparr>e_time = Fin 6, e_type = ''D'', e_src = ''a'', e_dst = Some ''box1'', e_id = ''M_L1''\<rparr>"
  let ?r = "\<lparr>row_Time = Fin 6, row_Type = ''DE'', row_Src = ''a'', row_Dst = Some ''box1'',
          row_Id = Some ''M_L1'', row_Status = Some ''D''\<rparr>"
  have x: "is_box (Some ''box1'')" by code_simp
  have y: "BOX_RE ''box1''" by code_simp
  have l: "is_low_id (Some (e_id ?e))" by code_simp
  have l': "ID_LOW_RE ''M_L1''" by code_simp
  from low_counting_ignores_exclusion [where e = ?e and events = "[?e]" and r = ?r
      and df = "[?r]" and i = "''M_L1''"] x y l l'
  show ?thesis by simp
qed

subsection \<open>The hourly loops\<close>

lemma snd_hour_body:
  "snd (hour_body N W rd mid h seen) = seen \<union> first_time_nodes W rd mid h seen"
  by (simp add: hour_body_def Let_def)

lemma n_hour_hour_body:
  "n_hour (fst (hour_body N W rd mid h seen)) = card (hour_receivers W rd mid h - seen)"
  by (simp add: hour_body_def Let_def first_time_nodes_def)

lemma seen_after_Suc:
  "seen_after N W rd mid (Suc k) =
     seen_after N W rd mid k \<union> first_time_nodes W rd mid (Suc k) (seen_after N W rd mid k)"
  by (simp add: snd_hour_body)

lemma seen_after_mono: "k \<le> k' \<Longrightarrow> seen_after N W rd mid k \<subseteq> seen_after N W rd mid k'"
proof (induction k')
  case 0
  then show ?case by simp
next
  case (Suc k')
  show ?case
  proof (cases "k = Suc k'")
    case True
    then show ?thesis by simp
  next
    case False
    with Suc.prems have "k \<le> k'" by simp
    then have "seen_after N W rd mid k \<subseteq> seen_after N W rd mid k'" by (rule Suc.IH)
    then show ?thesis unfolding seen_after_Suc by blast
  qed
qed

lemma hours_while_rows:
  "1 \<le> h \<Longrightarrow>
   hours_while N W H rd mid h (seen_after N W rd mid (h - 1)) =
     map (\<lambda>k. fst (hour_body N W rd mid k (seen_after N W rd mid (k - 1)))) [h..<Suc H]"
proof (induction "Suc H - h" arbitrary: h)
  case 0
  then have "\<not> h \<le> H" by simp
  then show ?case by (simp add: hours_while.simps [of N W H rd mid h])
next
  case (Suc d)
  then have le: "h \<le> H" by simp
  from Suc.prems obtain j where j: "h = Suc j" by (cases h) auto
  have s: "snd (hour_body N W rd mid h (seen_after N W rd mid (h - 1)))
         = seen_after N W rd mid (h + 1 - 1)"
    by (simp add: j)
  have d: "d = Suc H - (h + 1)" using Suc.hyps(2) by simp
  have ih: "hours_while N W H rd mid (h + 1) (seen_after N W rd mid (h + 1 - 1)) =
     map (\<lambda>k. fst (hour_body N W rd mid k (seen_after N W rd mid (k - 1)))) [h + 1..<Suc H]"
    by (rule Suc.hyps(1) [OF d]) simp
  have u: "[h..<Suc H] = h # [h + 1..<Suc H]"
    using le by (simp add: upt_conv_Cons)
  show ?case
    unfolding hours_while.simps [of N W H rd mid h "seen_after N W rd mid (h - 1)"]
    using le by (simp only: s ih u if_True list.map)
qed

lemma hours_while_nth:
  assumes "1 \<le> h" and "h \<le> H"
  shows "hours_while N W H rd mid 1 {} ! (h - 1) =
     fst (hour_body N W rd mid h (seen_after N W rd mid (h - 1)))"
proof -
  have "hours_while N W H rd mid 1 {} =
     map (\<lambda>k. fst (hour_body N W rd mid k (seen_after N W rd mid (k - 1)))) [1..<Suc H]"
    using hours_while_rows [of 1 N W H rd mid] by simp
  moreover have "h - 1 < length [1..<Suc H]" using assms by simp
  moreover have "[1..<Suc H] ! (h - 1) = h" using assms by (simp add: nth_upt del: upt_Suc)
  ultimately show ?thesis by (simp del: upt_Suc)
qed

lemma first_time_disjoint_lt:
  assumes "1 \<le> h" and "h < h'"
  shows "first_time_nodes W rd mid h (seen_after N W rd mid (h - 1))
       \<inter> first_time_nodes W rd mid h' (seen_after N W rd mid (h' - 1)) = {}"
proof -
  from assms obtain j where j: "h = Suc j" by (cases h) auto
  have "first_time_nodes W rd mid h (seen_after N W rd mid (h - 1)) \<subseteq> seen_after N W rd mid h"
    unfolding j by (simp add: snd_hour_body)
  moreover have "seen_after N W rd mid h \<subseteq> seen_after N W rd mid (h' - 1)"
    using assms by (intro seen_after_mono) simp
  moreover have "first_time_nodes W rd mid h' (seen_after N W rd mid (h' - 1))
       \<inter> seen_after N W rd mid (h' - 1) = {}"
    by (auto simp: first_time_nodes_def)
  ultimately show ?thesis by blast
qed

lemma R_based_bins_n_hour:
  "R_based_bins N sub mid bins seen = Inr rows \<Longrightarrow>
   map n_hour rows = map (\<lambda>b. card (slice_dsts sub (fst (snd b)) (snd (snd b)))) bins"
proof (induction bins arbitrary: seen rows)
  case Nil
  then show ?case by simp
next
  case (Cons b bins)
  obtain h start stop where b: "b = (h, start, stop)" by (cases b)
  from Cons.prems show ?case
    unfolding b
    by (auto simp: Let_def split: sum.splits dest: Cons.IH)
qed

lemma seen_bins_grows: "seen \<subseteq> seen_bins sub bins seen"
proof (induction bins arbitrary: seen)
  case Nil
  then show ?case by simp
next
  case (Cons b bins)
  obtain h start stop where b: "b = (h, start, stop)" by (cases b)
  have "seen \<union> slice_dsts sub start stop \<subseteq> seen_bins sub bins (seen \<union> slice_dsts sub start stop)"
    by (rule Cons.IH)
  then show ?case unfolding b by auto
qed


lemma hours_while_N:
  "row \<in> set (hours_while N W H rd mid h seen) \<Longrightarrow> hr_N row = N"
proof (induction N W H rd mid h seen rule: hours_while.induct)
  case (1 N W H rd mid h seen)
  show ?case
  proof (cases "h \<le> H")
    case True
    with "1.prems" have "row = fst (hour_body N W rd mid h seen)
        \<or> row \<in> set (hours_while N W H rd mid (h + 1) (snd (hour_body N W rd mid h seen)))"
      by (simp add: hours_while.simps [of N W H rd mid h seen])
    then show ?thesis
    proof
      assume "row = fst (hour_body N W rd mid h seen)"
      then show ?thesis by (simp add: hour_body_def Let_def)
    next
      assume "row \<in> set (hours_while N W H rd mid (h + 1) (snd (hour_body N W rd mid h seen)))"
      with True show ?thesis by (rule "1.IH")
    qed
  next
    case False
    with "1.prems" show ?thesis by (simp add: hours_while.simps [of N W H rd mid h seen])
  qed
qed




lemma MH_hourly_firsttime_N:
  "row \<in> set (MH_hourly_firsttime cfg events) \<Longrightarrow> hr_N row = N_nodes cfg events"
  by (auto simp: MH_hourly_firsttime_def dest: hours_while_N)

lemma R_based_bins_N:
  "R_based_bins N sub mid bins seen = Inr rows \<Longrightarrow> row \<in> set rows \<Longrightarrow> hr_N row = N"
proof (induction bins arbitrary: seen rows)
  case Nil
  then show ?case by simp
next
  case (Cons b bins)
  obtain h start stop where b: "b = (h, start, stop)" by (cases b)
  from Cons.prems show ?case
    unfolding b
    by (auto simp: Let_def split: sum.splits dest: Cons.IH)
qed

lemma R_based_ids_N:
  "R_based_ids N hr bins mids = Inr rows \<Longrightarrow> row \<in> set rows \<Longrightarrow> hr_N row = N"
proof (induction mids arbitrary: rows)
  case Nil
  then show ?case by simp
next
  case (Cons mid mids)
  from Cons.prems show ?case
    by (auto split: sum.splits dest: Cons.IH R_based_bins_N)
qed

lemma calc_high_N:
  "calc_high_hourly_R_based cfg df nodes_all = Inr rows \<Longrightarrow> row \<in> set rows \<Longrightarrow>
   hr_N row = card nodes_all"
  by (auto simp: calc_high_hourly_R_based_def split: if_splits dest: R_based_ids_N)

lemma cluster_bins_fields:
  "row \<in> set (cluster_bins N_c cname sub mid bins seen) \<Longrightarrow>
   N_cluster row = N_c \<and> Cluster row = cname
   \<and> (N_c = 0 \<longrightarrow> cr_rate_percent_hour row = NaN \<and> cr_cumulative_rate_percent row = NaN)"
proof (induction bins arbitrary: seen)
  case Nil
  then show ?case by simp
next
  case (Cons b bins)
  obtain h start stop where b: "b = (h, start, stop)" by (cases b)
  let ?seen = "seen \<union> slice_dsts sub start stop"
  let ?row = "\<lparr>cr_Id = mid, cr_hour_index = h, Cluster = cname, N_cluster = N_c,
          n_receivers_hour = card (slice_dsts sub start stop),
          cr_rate_percent_hour = pd_rate (card (slice_dsts sub start stop)) N_c,
          cr_cumulative_rate_percent = pd_rate (card ?seen) N_c\<rparr>"
  from Cons.prems have "row = ?row \<or> row \<in> set (cluster_bins N_c cname sub mid bins ?seen)"
    unfolding b by (simp add: Let_def)
  then show ?case
  proof
    assume "row = ?row"
    then show ?thesis by (simp add: pd_rate_def)
  next
    assume "row \<in> set (cluster_bins N_c cname sub mid bins ?seen)"
    then show ?thesis by (rule Cons.IH)
  qed
qed

lemma cluster_records_fields:
  assumes "row \<in> set (cluster_records cfg df nodes_all c)"
  shows "Cluster row = fst c \<and> N_cluster row = card (Set.filter (snd c) nodes_all)
   \<and> (N_cluster row = 0 \<longrightarrow> cr_rate_percent_hour row = NaN \<and> cr_cumulative_rate_percent row = NaN)"
  using assms by (auto simp: cluster_records_def Let_def dest!: cluster_bins_fields)

lemma by_cluster_fields:
  assumes "calc_high_hourly_R_based_by_cluster cfg df nodes_all = Inr rows" and "row \<in> set rows"
  shows "N_cluster row = card (Set.filter (cluster_re (Cluster row)) nodes_all)
   \<and> (N_cluster row = 0 \<longrightarrow> cr_rate_percent_hour row = NaN \<and> cr_cumulative_rate_percent row = NaN)"
proof -
  from assms obtain c where c: "c \<in> set CLUSTER_REGEX" "row \<in> set (cluster_records cfg df nodes_all c)"
    by (auto simp: calc_high_hourly_R_based_by_cluster_def split: if_splits)
  from c(1) have "snd c = cluster_re (fst c)"
    by (auto simp: CLUSTER_REGEX_def)
  with cluster_records_fields [OF c(2)] show ?thesis by simp
qed

lemma high_files_total_nodes:
  "map total_nodes (high_files tid files seen cumul) = map (\<lambda>f. total_nodes_of (snd f)) files"
proof (induction files arbitrary: seen cumul)
  case Nil
  then show ?case by simp
next
  case (Cons f files)
  obtain file_path data where f: "f = (file_path, data)" by (cases f)
  show ?case unfolding f by (simp add: Let_def Cons.IH)
qed

text \<open>
  Claim C1, as amended. In the script the count written for hour \<open>h\<close> is the number of
  destinations of that hour that are not in \<^verbatim>\<open>already_seen_nodes\<close> as it stands before the
  hour; the set never shrinks, and no node is a first-time node of two hours. In
  \<^verbatim>\<open>calc_high_hourly_R_based\<close> the count of an hour is the number of distinct destinations of
  the hour's slice, whatever \<^verbatim>\<open>seen\<close> holds; \<^verbatim>\<open>seen\<close> never shrinks there either.
\<close>

theorem first_time_counting:
  "(1 \<le> h \<and> h \<le> H \<longrightarrow>
      n_hour (hours_while N W H rd mid 1 {} ! (h - 1)) =
        card (hour_receivers W rd mid h - seen_after N W rd mid (h - 1)))
   \<and> seen_after N W rd mid k \<subseteq> seen_after N W rd mid (Suc k)
   \<and> (1 \<le> h \<and> 1 \<le> h' \<and> h \<noteq> h' \<longrightarrow>
        first_time_nodes W rd mid h (seen_after N W rd mid (h - 1))
          \<inter> first_time_nodes W rd mid h' (seen_after N W rd mid (h' - 1)) = {})
   \<and> (R_based_bins N sub mid bins seen = Inr rows \<longrightarrow>
        map n_hour rows = map (\<lambda>b. card (slice_dsts sub (fst (snd b)) (snd (snd b)))) bins)
   \<and> seen \<subseteq> seen_bins sub bins seen"
proof -
  have a: "1 \<le> h \<and> h \<le> H \<longrightarrow>
      n_hour (hours_while N W H rd mid 1 {} ! (h - 1)) =
        card (hour_receivers W rd mid h - seen_after N W rd mid (h - 1))"
    using hours_while_nth [of h H N W rd mid] by (auto simp: n_hour_hour_body)
  have b: "seen_after N W rd mid k \<subseteq> seen_after N W rd mid (Suc k)"
    by (rule seen_after_mono) simp
  have c: "1 \<le> h \<and> 1 \<le> h' \<and> h \<noteq> h' \<longrightarrow>
        first_time_nodes W rd mid h (seen_after N W rd mid (h - 1))
          \<inter> first_time_nodes W rd mid h' (seen_after N W rd mid (h' - 1)) = {}"
  proof (intro impI, elim conjE)
    assume h: "1 \<le> h" "1 \<le> h'" "h \<noteq> h'"
    then consider "h < h'" | "h' < h" by linarith
    then show "first_time_nodes W rd mid h (seen_after N W rd mid (h - 1))
          \<inter> first_time_nodes W rd mid h' (seen_after N W rd mid (h' - 1)) = {}"
    proof cases
      case 1
      with h(1) show ?thesis by (rule first_time_disjoint_lt)
    next
      case 2
      with h(2) have "first_time_nodes W rd mid h' (seen_after N W rd mid (h' - 1))
          \<inter> first_time_nodes W rd mid h (seen_after N W rd mid (h - 1)) = {}"
        by (rule first_time_disjoint_lt)
      then show ?thesis by blast
    qed
  qed
  have d: "R_based_bins N sub mid bins seen = Inr rows \<longrightarrow>
        map n_hour rows = map (\<lambda>b. card (slice_dsts sub (fst (snd b)) (snd (snd b)))) bins"
    by (auto dest: R_based_bins_n_hour)
  from a b c d seen_bins_grows [of seen sub bins] show ?thesis by blast
qed

theorem first_time_counting_witness:
  "n_hour (hours_while 2 3600 2
      [\<lparr>e_time = Fin 100, e_type = ''R'', e_src = ''a'', e_dst = Some ''b'', e_id = ''M_H1''\<rparr>,
       \<lparr>e_time = Fin 5000, e_type = ''R'', e_src = ''a'', e_dst = Some ''b'', e_id = ''M_H1''\<rparr>]
      ''M_H1'' 1 {} ! (2 - 1)) = 0"
proof -
  let ?rd = "[\<lparr>e_time = Fin 100, e_type = ''R'', e_src = ''a'', e_dst = Some ''b'', e_id = ''M_H1''\<rparr>,
              \<lparr>e_time = Fin 5000, e_type = ''R'', e_src = ''a'', e_dst = Some ''b'', e_id = ''M_H1''\<rparr>]"
  have s: "hour_receivers 3600 ?rd ''M_H1'' 2 - seen_after 2 3600 ?rd ''M_H1'' (2 - 1) = {}"
    by code_simp
  have h: "(1::nat) \<le> 2 \<and> (2::nat) \<le> 2" by simp
  have "n_hour (hours_while 2 3600 2 ?rd ''M_H1'' 1 {} ! (2 - 1)) =
        card (hour_receivers 3600 ?rd ''M_H1'' 2 - seen_after 2 3600 ?rd ''M_H1'' (2 - 1))"
    using first_time_counting [where h = 2 and H = 2 and N = 2 and W = 3600 and rd = ?rd
      and mid = "''M_H1''"] h by blast
  then show ?thesis by (simp only: s card.empty)
qed

text \<open>The claim as written fails on \<^verbatim>\<open>calc_high_hourly_R_based\<close>: node \<^verbatim>\<open>b\<close> receives \<^verbatim>\<open>M_H1\<close> in
  the first hour and again in the second, and is counted in both.\<close>

theorem R_based_counts_again:
  "map n_hour (take 2 (projr (calc_high_hourly_R_based pandas_config
      (parse_eventlogreport float_of_decimal [''100 DE a b M_H1 R'', ''5000 DE a b M_H1 R''])
      (compute_denominator_nodes
         (parse_eventlogreport float_of_decimal [''100 DE a b M_H1 R'', ''5000 DE a b M_H1 R''])
         True)))) = [1, 1]"
  by code_simp

text \<open>
  Claim C3, as amended. Every line of the script's table carries the one \<open>N\<close> computed from
  the whole log; every record of \<^verbatim>\<open>calc_high_hourly_R_based\<close> carries the size of the node set
  it was given, and every record of the cluster variant the size of its cluster's part of
  that set. \<^verbatim>\<open>calculate_high\<close> of \<^verbatim>\<open>sainaosi.py\<close> computes \<^verbatim>\<open>total_nodes\<close> anew from the rows of
  each hourly file.
\<close>

theorem node_count_fixed:
  "(row \<in> set (MH_hourly_firsttime cfg events) \<longrightarrow> hr_N row = N_nodes cfg events)
   \<and> (calc_high_hourly_R_based pcfg df nodes_all = Inr rows \<and> prow \<in> set rows
        \<longrightarrow> hr_N prow = card nodes_all)
   \<and> (calc_high_hourly_R_based_by_cluster pcfg df nodes_all = Inr crows \<and> crow \<in> set crows
        \<longrightarrow> N_cluster crow = card (Set.filter (cluster_re (Cluster crow)) nodes_all))
   \<and> map total_nodes (high_files tid files seen cumul) = map (\<lambda>f. total_nodes_of (snd f)) files"
  using MH_hourly_firsttime_N [of row cfg events] calc_high_N [of pcfg df nodes_all rows prow]
    by_cluster_fields [of pcfg df nodes_all crows crow] high_files_total_nodes [of tid files seen cumul]
  by blast

theorem node_count_fixed_witness:
  "hr_N (MH_hourly_firsttime (script_config\<lparr>TOTAL_HOURS := 2\<rparr>)
      (events_of_log float_of_decimal [''100 DE a b M_H1 R'', ''5000 DE a c M_H1 R'']) ! 1) = 3"
proof -
  let ?ev = "events_of_log float_of_decimal [''100 DE a b M_H1 R'', ''5000 DE a c M_H1 R'']"
  let ?cfg = "script_config\<lparr>TOTAL_HOURS := 2\<rparr>"
  have n: "N_nodes ?cfg ?ev = 3" by code_simp
  have l: "length (MH_hourly_firsttime ?cfg ?ev) = 2" by code_simp
  then have m: "MH_hourly_firsttime ?cfg ?ev ! 1 \<in> set (MH_hourly_firsttime ?cfg ?ev)"
    by (intro nth_mem) simp
  from node_count_fixed [where row = "MH_hourly_firsttime ?cfg ?ev ! 1"
      and cfg = ?cfg and events = ?ev] m
  have "hr_N (MH_hourly_firsttime ?cfg ?ev ! 1) = N_nodes ?cfg ?ev" by blast
  then show ?thesis by (simp only: n)
qed

text \<open>The claim as written fails on \<^verbatim>\<open>calculate_high\<close>: the two lines for \<^verbatim>\<open>M_Hp1\<close> carry 2 and
  3 as \<^verbatim>\<open>total_nodes\<close>.\<close>

theorem calculate_high_recounts_nodes:
  "map total_nodes (projr (calculate_high
      [(''3cluster_1.csv'',
        [\<lparr>csv_Time = ''100'', csv_Type = ''DE'', csv_Host = ''a'', csv_Tohost = ''b'',
          csv_Id = ''M_Hp1'', csv_Status = ''R''\<rparr>]),
       (''3cluster_2.csv'',
        [\<lparr>csv_Time = ''3700'', csv_Type = ''DE'', csv_Host = ''a'', csv_Tohost = ''c'',
          csv_Id = ''M_Hp1'', csv_Status = ''R''\<rparr>,
         \<lparr>csv_Time = ''3800'', csv_Type = ''DE'', csv_Host = ''b'', csv_Tohost = ''c'',
          csv_Id = ''M_Hp1'', csv_Status = ''R''\<rparr>])]
      ''M_Hp'' 1 1)) = [2, 3]"
  by code_simp




subsection \<open>The high-priority filter\<close>

lemma split_acc_tokens: "[] \<notin> set (split_acc cur s)"
  by (induction s arbitrary: cur) auto

lemma split_tokens_nonempty: "p \<in> set (split line) \<Longrightarrow> p \<noteq> []"
  using split_acc_tokens [of "[]" line] by (auto simp: split_def)

lemma events_of_log_iff:
  "e \<in> set (events_of_log to_float lines) \<longleftrightarrow> (\<exists>raw \<in> set lines. script_line to_float raw = Some e)"
  by (auto simp: events_of_log_def set_map_filter)

lemma script_line_dst:
  assumes "script_line to_float raw = Some e" and "e_type e = ''R'' \<or> e_type e = ''D''"
  shows "\<exists>d. e_dst e = Some d"
  using assms
  by (auto simp: script_line_def Let_def split: if_splits option.splits list.splits)

lemma dst_in_nodes_seen:
  "e \<in> set events \<Longrightarrow> e_dst e = Some d \<Longrightarrow> d \<in> set (nodes_seen events)"
  by (force simp: nodes_seen_def)

lemma rd_events_high_iff:
  "e \<in> set (rd_events_high cfg events) \<longleftrightarrow>
     e \<in> set events \<and> (e_type e = ''R'' \<or> e_type e = ''D'') \<and> is_high_id (Some (e_id e))
     \<and> \<not> (EXCLUDE_BOX cfg \<and> is_box (e_dst e)) \<and> \<not> (EXCLUDE_DO cfg \<and> is_do (e_dst e))"
  by (auto simp: rd_events_high_def)

lemma rd_events_high_universe:
  "e \<in> set (rd_events_high cfg (events_of_log to_float lines)) \<longleftrightarrow>
     e \<in> set (events_of_log to_float lines)
     \<and> (e_type e = ''R'' \<or> e_type e = ''D'') \<and> is_high_id (Some (e_id e))
     \<and> (\<exists>d. e_dst e = Some d \<and> d \<in> filtered_nodes cfg (events_of_log to_float lines))"
proof -
  let ?events = "events_of_log to_float lines"
  show ?thesis
  proof (cases "e \<in> set ?events \<and> (e_type e = ''R'' \<or> e_type e = ''D'')")
    case True
    then obtain raw where raw: "script_line to_float raw = Some e"
      by (auto simp: events_of_log_iff)
    from True have ty: "e_type e = ''R'' \<or> e_type e = ''D''" by simp
    from script_line_dst [OF raw ty] obtain d where d: "e_dst e = Some d" by blast
    from True d have "d \<in> set (nodes_seen ?events)"
      by (intro dst_in_nodes_seen [of e]) simp_all
    with True d show ?thesis
      unfolding rd_events_high_iff by (simp add: filtered_nodes_def)
  next
    case False
    then show ?thesis unfolding rd_events_high_iff by blast
  qed
qed

lemma parse_eventlogreport_iff:
  "r \<in> set (parse_eventlogreport to_float lines) \<longleftrightarrow> (\<exists>raw \<in> set lines. pd_line to_float raw = Some r)"
  by (auto simp: parse_eventlogreport_def set_map_filter)

lemma pd_line_DE_dst:
  assumes "pd_line to_float raw = Some r" and "row_Type r = ''DE''"
  shows "\<exists>d. row_Dst r = Some d \<and> d \<noteq> []"
proof -
  let ?parts = "split (strip raw)"
  from assms have r: "row_Dst r = Some (?parts ! 3)" and len: "6 \<le> length ?parts"
    by (auto simp: pd_line_def Let_def split: if_splits option.splits list.splits)
  from len have "?parts ! 3 \<in> set ?parts" by (intro nth_mem) simp
  then have "?parts ! 3 \<noteq> []" by (rule split_tokens_nonempty)
  with r show ?thesis by simp
qed

lemma high_R_iff:
  "r \<in> set (high_R cfg df) \<longleftrightarrow>
     r \<in> set df \<and> row_Type r = ''DE'' \<and> row_Status r = Some ''R''
     \<and> (\<exists>i. row_Id r = Some i \<and> ID_HIGH_RE i)
     \<and> \<not> (EXCLUDE_BOX_IN_DENOM cfg \<and> BOX_RE (astype_str (row_Dst r)))"
  by (auto simp: high_R_def Let_def astype_str_def)

lemma dst_in_denominator:
  assumes "r \<in> set df" and "row_Dst r = Some d" and "d \<noteq> []"
  shows "d \<in> compute_denominator_nodes df x \<longleftrightarrow> \<not> (x \<and> BOX_RE d)"
proof -
  from assms(1,2) have "Some d \<in> set (map row_Dst df)" by force
  then have "d \<in> set (dropna (map row_Dst df))" by (simp add: dropna_Some)
  with assms(3) show ?thesis
    by (auto simp: compute_denominator_nodes_def Let_def)
qed

lemma high_R_universe:
  "r \<in> set (high_R cfg (parse_eventlogreport to_float lines)) \<longleftrightarrow>
     r \<in> set (parse_eventlogreport to_float lines)
     \<and> row_Type r = ''DE'' \<and> row_Status r = Some ''R''
     \<and> (\<exists>i. row_Id r = Some i \<and> ID_HIGH_RE i)
     \<and> (\<exists>d. row_Dst r = Some d
            \<and> d \<in> compute_denominator_nodes (parse_eventlogreport to_float lines)
                   (EXCLUDE_BOX_IN_DENOM cfg))"
proof -
  let ?df = "parse_eventlogreport to_float lines"
  show ?thesis
  proof (cases "r \<in> set ?df \<and> row_Type r = ''DE''")
    case True
    then obtain raw where raw: "pd_line to_float raw = Some r"
      by (auto simp: parse_eventlogreport_iff)
    from True have ty: "row_Type r = ''DE''" by simp
    from pd_line_DE_dst [OF raw ty] obtain d where d: "row_Dst r = Some d" "d \<noteq> []"
      by blast
    from True d have "d \<in> compute_denominator_nodes ?df (EXCLUDE_BOX_IN_DENOM cfg)
        \<longleftrightarrow> \<not> (EXCLUDE_BOX_IN_DENOM cfg \<and> BOX_RE d)"
      by (intro dst_in_denominator) simp_all
    with d show ?thesis
      unfolding high_R_iff by (simp add: astype_str_def)
  next
    case False
    then show ?thesis unfolding high_R_iff by blast
  qed
qed

text \<open>
  Claim C2, as amended. The script keeps an event of the log for the hourly table exactly
  when its type is \<^verbatim>\<open>R\<close> or \<^verbatim>\<open>D\<close>, its identifier is high-priority and its destination is
  in the node universe. \<^verbatim>\<open>calc_high_hourly_R_based\<close> keeps a row exactly when it is a \<^verbatim>\<open>DE\<close>
  row of status \<^verbatim>\<open>R\<close> with a high-priority identifier and a destination in the node
  universe; a row of status \<^verbatim>\<open>D\<close> is never kept.
\<close>

theorem high_receipt_filter:
  "(e \<in> set (rd_events_high cfg (events_of_log to_float lines)) \<longleftrightarrow>
      e \<in> set (events_of_log to_float lines)
      \<and> (e_type e = ''R'' \<or> e_type e = ''D'') \<and> is_high_id (Some (e_id e))
      \<and> (\<exists>d. e_dst e = Some d \<and> d \<in> filtered_nodes cfg (events_of_log to_float lines)))
   \<and> (r \<in> set (high_R pcfg (parse_eventlogreport to_float lines)) \<longleftrightarrow>
      r \<in> set (parse_eventlogreport to_float lines)
      \<and> row_Type r = ''DE'' \<and> row_Status r = Some ''R''
      \<and> (\<exists>i. row_Id r = Some i \<and> ID_HIGH_RE i)
      \<and> (\<exists>d. row_Dst r = Some d
             \<and> d \<in> compute_denominator_nodes (parse_eventlogreport to_float lines)
                    (EXCLUDE_BOX_IN_DENOM pcfg)))
   \<and> (row_Status r = Some ''D'' \<longrightarrow> r \<notin> set (high_R pcfg df))"
proof -
  have "row_Status r = Some ''D'' \<longrightarrow> r \<notin> set (high_R pcfg df)"
    by (simp add: high_R_iff)
  with rd_events_high_universe [of e cfg to_float lines] high_R_universe [of r pcfg to_float lines]
  show ?thesis by blast
qed

theorem high_receipt_filter_witness:
  "rd_events_high script_config
      (events_of_log float_of_decimal [''100 DE a b M_H1 D'', ''200 DE a box1 M_H1 R''])
     = [\<lparr>e_time = Fin 100, e_type = ''D'', e_src = ''a'', e_dst = Some ''b'', e_id = ''M_H1''\<rparr>]
   \<and> \<lparr>e_time = Fin 100, e_type = ''D'', e_src = ''a'', e_dst = Some ''b'', e_id = ''M_H1''\<rparr>
      \<in> set (rd_events_high script_config
          (events_of_log float_of_decimal [''100 DE a b M_H1 D'', ''200 DE a box1 M_H1 R'']))
   \<and> \<lparr>row_Time = Fin 300, row_Type = ''DE'', row_Src = ''a'', row_Dst = Some ''b'',
       row_Id = Some ''M_H1'', row_Status = Some ''R''\<rparr>
      \<in> set (high_R pandas_config (parse_eventlogreport float_of_decimal [''300 DE a b M_H1 R'']))"
proof -
  let ?lines = "[''100 DE a b M_H1 D'', ''200 DE a box1 M_H1 R'']"
  let ?e = "\<lparr>e_time = Fin 100, e_type = ''D'', e_src = ''a'', e_dst = Some ''b'', e_id = ''M_H1''\<rparr>"
  let ?r = "\<lparr>row_Time = Fin 300, row_Type = ''DE'', row_Src = ''a'', row_Dst = Some ''b'',
       row_Id = Some ''M_H1'', row_Status = Some ''R''\<rparr>"
  have ev: "events_of_log float_of_decimal ?lines =
      [?e, \<lparr>e_time = Fin 200, e_type = ''R'', e_src = ''a'', e_dst = Some ''box1'', e_id = ''M_H1''\<rparr>]"
    by code_simp
  have hi: "is_high_id (Some ''M_H1'')" by code_simp
  have un: "''b'' \<in> filtered_nodes script_config (events_of_log float_of_decimal ?lines)"
    by code_simp
  have df: "parse_eventlogreport float_of_decimal [''300 DE a b M_H1 R''] = [?r]"
    by code_simp
  have hi': "ID_HIGH_RE ''M_H1''" by code_simp
  have un': "''b'' \<in> compute_denominator_nodes
      (parse_eventlogreport float_of_decimal [''300 DE a b M_H1 R''])
      (EXCLUDE_BOX_IN_DENOM pandas_config)"
    by code_simp
  have whole: "rd_events_high script_config (events_of_log float_of_decimal ?lines) = [?e]"
    by code_simp
  note w = high_receipt_filter [where e = ?e and cfg = script_config
      and to_float = float_of_decimal and lines = ?lines]
  have m: "?e \<in> set (rd_events_high script_config (events_of_log float_of_decimal ?lines))"
    using w ev hi un by simp
  note w' = high_receipt_filter [where r = ?r and pcfg = pandas_config
      and to_float = float_of_decimal and lines = "[''300 DE a b M_H1 R'']"]
  have m': "?r \<in> set (high_R pandas_config
      (parse_eventlogreport float_of_decimal [''300 DE a b M_H1 R'']))"
    using w' df hi' un' by simp
  from whole m m' show ?thesis by blast
qed

text \<open>The claim as written fails on \<^verbatim>\<open>calc_high_hourly_R_based\<close>: a \<^verbatim>\<open>D\<close> delivery of \<^verbatim>\<open>M_H1\<close> to
  a node of the universe is kept by the script and dropped by the pandas function.\<close>

theorem R_based_drops_delivered:
  "''b'' \<in> compute_denominator_nodes
      (parse_eventlogreport float_of_decimal [''100 DE a b M_H1 D'']) True
   \<and> high_R pandas_config (parse_eventlogreport float_of_decimal [''100 DE a b M_H1 D'']) = []
   \<and> calc_high_hourly_R_based pandas_config
       (parse_eventlogreport float_of_decimal [''100 DE a b M_H1 D''])
       (compute_denominator_nodes
          (parse_eventlogreport float_of_decimal [''100 DE a b M_H1 D'']) True) = Inr []
   \<and> rd_events_high script_config (events_of_log float_of_decimal [''100 DE a b M_H1 D''])
     = [\<lparr>e_time = Fin 100, e_type = ''D'', e_src = ''a'', e_dst = Some ''b'', e_id = ''M_H1''\<rparr>]"
  by code_simp

end
